theory Spec2Isabelle
  imports Main "HOL-Library.Char_ord" "HOL-Library.List_Lexorder"
begin

section \<open>Python values and errors\<close>

text \<open>
  Koine is written in Python over dynamic dictionaries and lists. Values that the
  code builds (AST nodes, \<open>ast\<close> directive blocks) are embedded as \<open>pyval\<close>; a
  dictionary is an association list in insertion order. Exceptions are values of
  \<open>error\<close>; a function that can raise returns \<open>error + 'a\<close>.
\<close>

datatype pyval =
    PNone
  | PBool bool
  | PInt int
  | PStr string
  | PList "pyval list"
  | PDict "(string \<times> pyval) list"

text \<open>
  The matcher's exceptions: \<open>ParseError\<close> and \<open>IncompleteParseError\<close> carry the
  offset \<open>pos\<close> and the text \<open>str(e)\<close>; a \<open>ParseError\<close> may have the attribute
  \<open>exprs\<close>, the expressions expected at \<open>pos\<close>, each taken as the pair of the rule
  name the compiled grammar holds it under (if any) and its literal text (if it
  is a literal). \<open>VisitationError\<close> is the matcher's wrapper around an exception
  raised while a node is visited.
\<close>

type_synonym expected_expr = "string option \<times> string option"

datatype error =
    ValueError string
  | SyntaxError string
  | IndentationError string
  | IndexError
  | KeyError string
  | TypeError
  | AttributeError
  | ParseError nat string "expected_expr list option"
  | IncompleteParseError nat string
  | VisitationError error

section \<open>Position finder\<close>

text \<open>
  \<open>LineColumnFinder.__init__\<close>: the list of line starts is \<open>[0]\<close> followed by
  \<open>i + 1\<close> for every index \<open>i\<close> that holds a newline, in text order.
\<close>

abbreviation newline :: char where
  "newline \<equiv> CHR 0x0A"

fun scan_line_starts :: "nat \<Rightarrow> string \<Rightarrow> nat list" where
  "scan_line_starts i [] = []"
| "scan_line_starts i (c # cs) =
     (if c = newline then (i + 1) # scan_line_starts (i + 1) cs
      else scan_line_starts (i + 1) cs)"

definition line_starts :: "string \<Rightarrow> nat list" where
  "line_starts text = 0 # scan_line_starts 0 text"

text \<open>
  \<open>bisect.bisect_right\<close> of the Python standard library, with \<open>lo = 0\<close> and
  \<open>hi = len(a)\<close>: the binary search loop
  \<^verbatim>\<open>while lo < hi: mid = (lo + hi) // 2; if x < a[mid]: hi = mid else: lo = mid + 1\<close>.
\<close>

function bisect_loop :: "nat list \<Rightarrow> int \<Rightarrow> nat \<Rightarrow> nat \<Rightarrow> nat" where
  "bisect_loop a x lo hi =
     (if lo < hi then
        (let mid = (lo + hi) div 2 in
         if x < int (a ! mid) then bisect_loop a x lo mid
         else bisect_loop a x (mid + 1) hi)
      else lo)"
  by pat_completeness auto
termination
  by (relation "measure (\<lambda>(a, x, lo, hi). hi - lo)") auto

definition bisect_right :: "nat list \<Rightarrow> int \<Rightarrow> nat" where
  "bisect_right a x = bisect_loop a x 0 (length a)"

text \<open>
  Python list indexing: a negative index counts from the end, an index out of
  range raises \<open>IndexError\<close>.
\<close>

definition py_index :: "'a list \<Rightarrow> int \<Rightarrow> error + 'a" where
  "py_index xs i =
     (if 0 \<le> i \<and> i < int (length xs) then Inr (xs ! nat i)
      else if i < 0 \<and> - int (length xs) \<le> i then Inr (xs ! nat (int (length xs) + i))
      else Inl IndexError)"

text \<open>\<open>LineColumnFinder.find\<close>.\<close>

definition clamp_offset :: "string \<Rightarrow> int \<Rightarrow> int" where
  "clamp_offset text offset =
     (let offset1 = (if offset < 0 then 0 else offset)
      in if offset1 > int (length text) then int (length text) else offset1)"

definition find_pos :: "string \<Rightarrow> int \<Rightarrow> error + (int \<times> int)" where
  "find_pos text offset =
     (let offset2 = clamp_offset text offset;
          line_num = int (bisect_right (line_starts text) offset2)
      in case py_index (line_starts text) (line_num - 1) of
           Inl e \<Rightarrow> Inl e
         | Inr start \<Rightarrow> Inr (line_num, offset2 - int start + 1))"


section \<open>Grammar data model\<close>

text \<open>
  A rule node is a dictionary with exactly one shape key, whose payload has the
  type the grammar's data model gives it, and an optional \<open>ast\<close> block. The
  embedding fixes these by type: the shape is a constructor, the \<open>ast\<close> block an
  optional dictionary (\<open>None\<close> when the node has no \<open>ast\<close> key). The checks of the
  source that reject a node that is no dictionary, or has no or several shape
  keys, have no counterpart. A node with the \<open>subgrammar\<close> key is the shape
  \<open>Subgrammar\<close> (the file name is kept, the rest of its payload is not used by
  the functions embedded here).
\<close>

type_synonym ast_config = "(string \<times> pyval) list"

datatype rule_node = RuleNode (node_shape: shape) (node_ast: "ast_config option")
and shape =
    Literal string
  | Regex string
  | Rule string
  | Token string
  | Choice "rule_node list"
  | Sequence "rule_node list"
  | ZeroOrMore rule_node
  | OneOrMore rule_node
  | Optional rule_node
  | PositiveLookahead rule_node
  | NegativeLookahead rule_node
  | Subgrammar string

text \<open>
  A token spec of the lexer block, \<open>{regex, token?, action?, ast?}\<close>, and the
  grammar dictionary \<open>{start_rule?, rules, lexer?}\<close>; \<open>lexer\<close> holds the list
  \<open>lexer.tokens\<close>.
\<close>

record token_spec =
  spec_regex :: string
  spec_token :: "string option"
  spec_action :: "string option"
  spec_ast :: "ast_config option"

record grammar_dict =
  start_rule :: "string option"
  rules :: "(string \<times> rule_node) list"
  lexer :: "token_spec list option"

subsection \<open>Dictionary and truth-value helpers\<close>

text \<open>\<open>d.get(k)\<close> on a dictionary, and Python's truthiness of a value.\<close>

definition dict_get :: "(string \<times> 'v) list \<Rightarrow> string \<Rightarrow> 'v option" where
  "dict_get d k = map_of d k"

definition has_key :: "(string \<times> 'v) list \<Rightarrow> string \<Rightarrow> bool" where
  "has_key d k = (k \<in> set (map fst d))"

fun truthy :: "pyval \<Rightarrow> bool" where
  "truthy PNone = False"
| "truthy (PBool b) = b"
| "truthy (PInt i) = (i \<noteq> 0)"
| "truthy (PStr s) = (s \<noteq> [])"
| "truthy (PList xs) = (xs \<noteq> [])"
| "truthy (PDict d) = (d \<noteq> [])"

text \<open>\<open>node.get('ast', {})\<close> and \<open>ast_config.get(k)\<close> used as a condition.\<close>

definition ast_or_empty :: "ast_config option \<Rightarrow> ast_config" where
  "ast_or_empty a = (case a of None \<Rightarrow> [] | Some c \<Rightarrow> c)"

definition ast_flag :: "ast_config \<Rightarrow> string \<Rightarrow> bool" where
  "ast_flag c k = (case dict_get c k of None \<Rightarrow> False | Some v \<Rightarrow> truthy v)"

section \<open>Grammar-to-PEG transpiler\<close>

text \<open>\<open>sep.join(parts)\<close> and \<open>value.replace('"', '\\"')\<close>.\<close>

fun str_join :: "string \<Rightarrow> string list \<Rightarrow> string" where
  "str_join sep [] = []"
| "str_join sep [x] = x"
| "str_join sep (x # y # ys) = x @ sep @ str_join sep (y # ys)"

fun escape_quotes :: "string \<Rightarrow> string" where
  "escape_quotes [] = []"
| "escape_quotes (c # cs) =
     (if c = CHR 0x22 then CHR 0x5C # CHR 0x22 # escape_quotes cs
      else c # escape_quotes cs)"

text \<open>
  A list comprehension over calls that may raise: the first exception, in list
  order, is the comprehension's.
\<close>

fun collect :: "(error + 'a) list \<Rightarrow> error + 'a list" where
  "collect [] = Inr []"
| "collect (Inl e # rs) = Inl e"
| "collect (Inr v # rs) = (case collect rs of Inl e \<Rightarrow> Inl e | Inr vs \<Rightarrow> Inr (v # vs))"

text \<open>
  \<open>transpile_rule(rule_definition, is_token_grammar)\<close>. The parameter
  \<open>rule_name\<close> of the source only decorates the message for a node that is no
  dictionary.
\<close>

fun transpile_rule :: "bool \<Rightarrow> rule_node \<Rightarrow> error + string" where
  \<open>transpile_rule is_token_grammar (RuleNode (Subgrammar f) a) = Inr ''("")?''\<close>
| \<open>transpile_rule is_token_grammar (RuleNode (Token v) a) = Inr v\<close>
| \<open>transpile_rule is_token_grammar (RuleNode (Literal v) a) =
     (if is_token_grammar
      then Inl (ValueError ''literal is not supported when a lexer is defined. Use token instead.'')
      else Inr ([CHR 0x22] @ escape_quotes v @ [CHR 0x22]))\<close>
| \<open>transpile_rule is_token_grammar (RuleNode (Regex v) a) =
     (if is_token_grammar
      then Inl (ValueError ''regex is not supported when a lexer is defined. Use token instead.'')
      else Inr (''~r'' @ [CHR 0x22] @ escape_quotes v @ [CHR 0x22]))\<close>
| \<open>transpile_rule is_token_grammar (RuleNode (Rule v) a) =
     (let ast_keys = map fst (ast_or_empty a);
          is_just_a_name = (length ast_keys = 1 \<and> ''name'' \<in> set ast_keys)
      in if a \<noteq> None \<and> \<not> is_just_a_name then Inr (''('' @ v @ '' ("")?)'')
         else Inr v)\<close>
| \<open>transpile_rule is_token_grammar (RuleNode (Choice vs) a) =
     (if vs = [] then Inl (ValueError ''Choice cannot be empty'')
      else case collect (map (transpile_rule is_token_grammar) vs) of
             Inl e \<Rightarrow> Inl e
           | Inr parts \<Rightarrow> Inr (''('' @ str_join '' / '' parts @ '')''))\<close>
| \<open>transpile_rule is_token_grammar (RuleNode (Sequence vs) a) =
     (if vs = [] then Inr ''("")?''
      else case collect (map (transpile_rule is_token_grammar) vs) of
             Inl e \<Rightarrow> Inl e
           | Inr parts \<Rightarrow>
               (if length parts = 1 then Inr (''('' @ str_join '' '' parts @ '' ("")?)'')
                else Inr (''('' @ str_join '' '' parts @ '')'')))\<close>
| \<open>transpile_rule is_token_grammar (RuleNode (ZeroOrMore v) a) =
     (case transpile_rule is_token_grammar v of
        Inl e \<Rightarrow> Inl e | Inr s \<Rightarrow> Inr (''('' @ s @ '')*''))\<close>
| \<open>transpile_rule is_token_grammar (RuleNode (OneOrMore v) a) =
     (case transpile_rule is_token_grammar v of
        Inl e \<Rightarrow> Inl e | Inr s \<Rightarrow> Inr (''('' @ s @ '')+''))\<close>
| \<open>transpile_rule is_token_grammar (RuleNode (Optional v) a) =
     (case transpile_rule is_token_grammar v of
        Inl e \<Rightarrow> Inl e | Inr s \<Rightarrow> Inr (''('' @ s @ '')?''))\<close>
| \<open>transpile_rule is_token_grammar (RuleNode (PositiveLookahead v) a) =
     (case transpile_rule is_token_grammar v of
        Inl e \<Rightarrow> Inl e | Inr s \<Rightarrow> Inr (''&('' @ s @ '')''))\<close>
| \<open>transpile_rule is_token_grammar (RuleNode (NegativeLookahead v) a) =
     (case transpile_rule is_token_grammar v of
        Inl e \<Rightarrow> Inl e | Inr s \<Rightarrow> Inr (''!('' @ s @ '')''))\<close>

text \<open>
  \<open>transpile_grammar(grammar_dict)\<close>: one line \<open>name = body\<close> per rule, in
  dictionary order, then one line per token type when the grammar has a lexer.
  The source collects the token types in a set, whose iteration order Python
  leaves open; the model lists them in declaration order, \<open>INDENT\<close> and
  \<open>DEDENT\<close> last.
\<close>

definition token_types :: "token_spec list \<Rightarrow> string list" where
  "token_types specs =
     remdups (List.map_filter spec_token specs @ [''INDENT'', ''DEDENT''])"

definition token_rule_line :: "string \<Rightarrow> string" where
  \<open>token_rule_line t = t @ '' = ~r"'' @ t @ [CHR 0x5C] @ ''s*"''\<close>

definition transpile_grammar :: "grammar_dict \<Rightarrow> error + string" where
  "transpile_grammar g =
     (let is_token_grammar = (lexer g \<noteq> None) in
      case collect (map (\<lambda>(name, rule).
                      case transpile_rule is_token_grammar rule of
                        Inl e \<Rightarrow> Inl e
                      | Inr body \<Rightarrow> Inr (name @ '' = '' @ body)) (rules g)) of
        Inl e \<Rightarrow> Inl e
      | Inr grammar_lines \<Rightarrow>
          Inr (str_join [newline]
                 (grammar_lines @
                  (case lexer g of
                     None \<Rightarrow> []
                   | Some specs \<Rightarrow> map token_rule_line (token_types specs)))))"

text \<open>
  A rule node contains an empty choice when it is \<open>{choice: []}\<close> itself or one
  of the rule nodes below it (the parts of a choice or sequence, the node under a
  quantifier or lookahead) contains one.
\<close>

fun has_empty_choice :: "rule_node \<Rightarrow> bool" where
  "has_empty_choice (RuleNode (Choice vs) a) = (vs = [] \<or> list_ex has_empty_choice vs)"
| "has_empty_choice (RuleNode (Sequence vs) a) = list_ex has_empty_choice vs"
| "has_empty_choice (RuleNode (ZeroOrMore v) a) = has_empty_choice v"
| "has_empty_choice (RuleNode (OneOrMore v) a) = has_empty_choice v"
| "has_empty_choice (RuleNode (Optional v) a) = has_empty_choice v"
| "has_empty_choice (RuleNode (PositiveLookahead v) a) = has_empty_choice v"
| "has_empty_choice (RuleNode (NegativeLookahead v) a) = has_empty_choice v"
| "has_empty_choice (RuleNode (Literal v) a) = False"
| "has_empty_choice (RuleNode (Regex v) a) = False"
| "has_empty_choice (RuleNode (Rule v) a) = False"
| "has_empty_choice (RuleNode (Token v) a) = False"
| "has_empty_choice (RuleNode (Subgrammar v) a) = False"

definition grammar_has_empty_choice :: "grammar_dict \<Rightarrow> bool" where
  "grammar_has_empty_choice g = list_ex (\<lambda>(name, rule). has_empty_choice rule) (rules g)"

section \<open>Linter: the always-empty classification\<close>

text \<open>
  \<open>_is_def_always_empty\<close> and \<open>_is_rule_always_empty\<close> share the dictionary
  \<open>memo\<close>, which they update in place; the model passes it along and returns it
  with the result. \<open>all_always_empty\<close> is the generator expression
  \<open>all(self._is_def_always_empty(p, memo, grammar_dict) for p in parts)\<close>, which
  stops at the first part that is not empty.
\<close>

type_synonym memo = "string \<rightharpoonup> bool"

definition token_spec_empty :: "token_spec list \<Rightarrow> string \<Rightarrow> bool" where
  "token_spec_empty specs token_type =
     (case List.find (\<lambda>spec. spec_token spec = Some token_type) specs of
        None \<Rightarrow> False
      | Some spec \<Rightarrow>
          spec_action spec = Some ''skip'' \<or> ast_flag (ast_or_empty (spec_ast spec)) ''discard'')"

definition names_child :: "rule_node \<Rightarrow> bool" where
  "names_child part = has_key (ast_or_empty (node_ast part)) ''name''"

definition unvisited :: "grammar_dict \<Rightarrow> memo \<Rightarrow> nat" where
  "unvisited g memo = card {name \<in> set (map fst (rules g)). memo name = None}"

function is_def_always_empty :: "grammar_dict \<Rightarrow> rule_node \<Rightarrow> memo \<Rightarrow> bool \<times> memo"
  and all_always_empty :: "grammar_dict \<Rightarrow> rule_node list \<Rightarrow> memo \<Rightarrow> bool \<times> memo"
  and is_rule_always_empty :: "grammar_dict \<Rightarrow> string \<Rightarrow> memo \<Rightarrow> bool \<times> memo"
where
  "is_def_always_empty g (RuleNode sh a) memo =
     (let ast_config = ast_or_empty a in
      if ast_flag ast_config ''discard'' then (True, memo)
      else if has_key ast_config ''structure'' then (False, memo)
      else case sh of
          Rule name \<Rightarrow> is_rule_always_empty g name memo
        | Token token_type \<Rightarrow>
            (case lexer g of
               Some specs \<Rightarrow> (token_spec_empty specs token_type, memo)
             | None \<Rightarrow> (False, memo))
        | Literal v \<Rightarrow> (False, memo)
        | Regex v \<Rightarrow> (False, memo)
        | PositiveLookahead v \<Rightarrow>
            (if ast_flag ast_config ''leaf'' then (False, memo) else (True, memo))
        | NegativeLookahead v \<Rightarrow>
            (if ast_flag ast_config ''leaf'' then (False, memo) else (True, memo))
        | Choice alts \<Rightarrow>
            (if ast_flag ast_config ''leaf'' then (False, memo)
             else all_always_empty g alts memo)
        | Sequence parts \<Rightarrow>
            (if ast_flag ast_config ''leaf'' then (False, memo)
             else if list_ex names_child parts then (False, memo)
             else all_always_empty g parts memo)
        | OneOrMore v \<Rightarrow>
            (if ast_flag ast_config ''leaf'' then (False, memo)
             else is_def_always_empty g v memo)
        | ZeroOrMore v \<Rightarrow>
            (if ast_flag ast_config ''leaf'' then (False, memo)
             else is_def_always_empty g v memo)
        | Optional v \<Rightarrow>
            (if ast_flag ast_config ''leaf'' then (False, memo)
             else is_def_always_empty g v memo)
        | Subgrammar f \<Rightarrow> (False, memo))"
| "all_always_empty g [] memo = (True, memo)"
| "all_always_empty g (p # ps) memo =
     (case is_def_always_empty g p memo of
        (is_empty, memo1) \<Rightarrow>
          if is_empty then all_always_empty g ps memo1 else (False, memo1))"
| "is_rule_always_empty g rule_name memo =
     (case memo rule_name of
        Some known \<Rightarrow> (known, memo)
      | None \<Rightarrow>
          (case map_of (rules g) rule_name of
             None \<Rightarrow> (False, memo)
           | Some rule_def \<Rightarrow>
               (case is_def_always_empty g rule_def (memo(rule_name \<mapsto> False)) of
                  (is_empty, memo1) \<Rightarrow> (is_empty, memo1(rule_name \<mapsto> is_empty)))))"
  by pat_completeness auto


lemma always_empty_memo_grows:
  "is_def_always_empty_all_always_empty_is_rule_always_empty_dom (Inl (g, n, memo)) \<Longrightarrow>
     memo k \<noteq> None \<Longrightarrow> snd (is_def_always_empty g n memo) k \<noteq> None"
  "is_def_always_empty_all_always_empty_is_rule_always_empty_dom (Inr (Inl (g, ns, memo))) \<Longrightarrow>
     memo k \<noteq> None \<Longrightarrow> snd (all_always_empty g ns memo) k \<noteq> None"
  "is_def_always_empty_all_always_empty_is_rule_always_empty_dom (Inr (Inr (g, name, memo))) \<Longrightarrow>
     memo k \<noteq> None \<Longrightarrow> snd (is_rule_always_empty g name memo) k \<noteq> None"
proof (induct g n memo and g ns memo and g name memo
       rule: is_def_always_empty_all_always_empty_is_rule_always_empty.pinduct)
  case (1 g sh a memo)
  then show ?case
    by (simp add: is_def_always_empty.psimps Let_def split: shape.splits option.splits)
next
  case (2 g memo)
  then show ?case by (simp add: all_always_empty.psimps)
next
  case (3 g p ps memo)
  obtain e m1 where r: "is_def_always_empty g p memo = (e, m1)"
    by (cases "is_def_always_empty g p memo")
  from 3(2)[OF 3(4)] r have m1: "m1 k \<noteq> None" by simp
  show ?case
  proof (cases e)
    case True
    with 3(3)[OF r[symmetric] _ m1] 3(1) r show ?thesis
      by (simp add: all_always_empty.psimps)
  next
    case False
    with 3(1) r m1 show ?thesis by (simp add: all_always_empty.psimps)
  qed
next
  case (4 g rule_name memo)
  show ?case
  proof (cases "memo rule_name")
    case (Some known)
    with 4(1,3) show ?thesis by (simp add: is_rule_always_empty.psimps)
  next
    case None
    show ?thesis
    proof (cases "map_of (rules g) rule_name")
      case n: None
      with None 4(1,3) show ?thesis by (simp add: is_rule_always_empty.psimps)
    next
      case (Some rule_def)
      obtain e m1 where r: "is_def_always_empty g rule_def (memo(rule_name \<mapsto> False)) = (e, m1)"
        by (cases "is_def_always_empty g rule_def (memo(rule_name \<mapsto> False))")
      have "(memo(rule_name \<mapsto> False)) k \<noteq> None" using 4(3) by auto
      from 4(2)[OF None Some this] r have "m1 k \<noteq> None" by (simp add: fun_upd_def)
      with None Some r 4(1) show ?thesis by (simp add: is_rule_always_empty.psimps)
    qed
  qed
qed

lemma unvisited_mono:
  assumes "\<And>k. memo k \<noteq> None \<Longrightarrow> memo1 k \<noteq> None"
  shows "unvisited g memo1 \<le> unvisited g memo"
  unfolding unvisited_def
proof (rule card_mono)
  show "finite {name \<in> set (map fst (rules g)). memo name = None}" by simp
  show "{name \<in> set (map fst (rules g)). memo1 name = None}
        \<subseteq> {name \<in> set (map fst (rules g)). memo name = None}"
  proof
    fix n assume "n \<in> {name \<in> set (map fst (rules g)). memo1 name = None}"
    then have n: "n \<in> set (map fst (rules g))" "memo1 n = None" by auto
    from n(2) assms[of n] have "memo n = None" by (cases "memo n") auto
    with n(1) show "n \<in> {name \<in> set (map fst (rules g)). memo name = None}" by simp
  qed
qed

lemma unvisited_less:
  assumes "memo name = None" "map_of (rules g) name = Some r"
  shows "unvisited g (memo(name \<mapsto> b)) < unvisited g memo"
  unfolding unvisited_def
proof (rule psubset_card_mono)
  show "finite {name \<in> set (map fst (rules g)). memo name = None}" by simp
  have "name \<in> set (map fst (rules g))" using assms(2) by (auto dest: map_of_SomeD intro: rev_image_eqI)
  with assms(1) show "{n \<in> set (map fst (rules g)). (memo(name \<mapsto> b)) n = None}
        \<subset> {name \<in> set (map fst (rules g)). memo name = None}"
    by auto
qed

termination is_def_always_empty
  apply (relation "inv_image (less_than <*lex*> less_than)
         (\<lambda>x. case x of
             Inl (g, n, memo) \<Rightarrow> (unvisited g memo, size n)
           | Inr (Inl (g, ns, memo)) \<Rightarrow> (unvisited g memo, size_list size ns)
           | Inr (Inr (g, name, memo)) \<Rightarrow> (unvisited g memo, 0))")
             apply (intro wf_inv_image wf_lex_prod wf_less_than)
            apply simp_all
  subgoal for g p memo x y
  proof -
    assume r: "(True, y) = is_def_always_empty g p memo"
      and d: "is_def_always_empty_all_always_empty_is_rule_always_empty_dom (Inl (g, p, memo))"
    have "unvisited g y \<le> unvisited g memo"
    proof (rule unvisited_mono)
      fix k assume "memo k \<noteq> None"
      from always_empty_memo_grows(1)[OF d this] r[symmetric] show "y k \<noteq> None"
        by simp
    qed
    then show ?thesis by auto
  qed
  subgoal for g rule_name memo x2
    by (rule unvisited_less)
  done

text \<open>
  \<open>_check_for_always_empty_rules\<close>: the loop over the rules, in dictionary order,
  with one \<open>memo\<close> for the whole loop; a rule marked \<open>discard\<close> and a rule whose
  body is itself a lookahead are skipped. The error message lists the offenders
  sorted.
\<close>

definition is_lookahead_rule :: "rule_node \<Rightarrow> bool" where
  "is_lookahead_rule rule_def =
     (case node_shape rule_def of
        PositiveLookahead v \<Rightarrow> True
      | NegativeLookahead v \<Rightarrow> True
      | _ \<Rightarrow> False)"

fun always_empty_loop ::
  "grammar_dict \<Rightarrow> (string \<times> rule_node) list \<Rightarrow> memo \<Rightarrow> string list \<Rightarrow> string list" where
  "always_empty_loop g [] memo implicitly_empty_rules = implicitly_empty_rules"
| "always_empty_loop g ((rule_name, rule_def) # rest) memo implicitly_empty_rules =
     (if ast_flag (ast_or_empty (node_ast rule_def)) ''discard''
      then always_empty_loop g rest memo implicitly_empty_rules
      else if is_lookahead_rule rule_def
      then always_empty_loop g rest memo implicitly_empty_rules
      else case is_rule_always_empty g rule_name memo of
             (is_empty, memo1) \<Rightarrow>
               always_empty_loop g rest memo1
                 (if is_empty then implicitly_empty_rules @ [rule_name]
                  else implicitly_empty_rules))"

definition implicitly_empty_rules :: "grammar_dict \<Rightarrow> string list" where
  "implicitly_empty_rules g = always_empty_loop g (rules g) Map.empty []"

definition check_for_always_empty_rules :: "grammar_dict \<Rightarrow> error + unit" where
  "check_for_always_empty_rules g =
     (if implicitly_empty_rules g \<noteq> []
      then Inl (ValueError
        (''The following rules will always produce an empty AST node, which may be unintentional. '' @
         ''If this is intended, add `ast: { discard: true }` to the rule definition. '' @
         ''Rules: '' @ str_join '', '' (sort (implicitly_empty_rules g))))
      else Inr ())"

text \<open>
  The rules the amended claim C7 is about: a lookahead part that carries neither
  a \<open>structure\<close> nor a \<open>leaf\<close> directive, and a rule whose body is a sequence of
  such parts, none of which names a child, the rule itself carrying none of
  \<open>discard\<close>, \<open>structure\<close>, \<open>leaf\<close>.
\<close>

definition plain_lookahead :: "rule_node \<Rightarrow> bool" where
  "plain_lookahead part =
     (is_lookahead_rule part \<and>
      \<not> has_key (ast_or_empty (node_ast part)) ''structure'' \<and>
      \<not> ast_flag (ast_or_empty (node_ast part)) ''leaf'')"

definition lookahead_sequence :: "rule_node \<Rightarrow> bool" where
  "lookahead_sequence rule_def =
     (case node_shape rule_def of
        Sequence parts \<Rightarrow>
          list_all plain_lookahead parts \<and> \<not> list_ex names_child parts \<and>
          \<not> ast_flag (ast_or_empty (node_ast rule_def)) ''discard'' \<and>
          \<not> has_key (ast_or_empty (node_ast rule_def)) ''structure'' \<and>
          \<not> ast_flag (ast_or_empty (node_ast rule_def)) ''leaf''
      | _ \<Rightarrow> False)"

text \<open>
  The invariant of the memo used below: an entry for a rule that is a sequence of
  plain lookaheads says that the rule is empty.
\<close>

definition memo_sound :: "grammar_dict \<Rightarrow> memo \<Rightarrow> bool" where
  "memo_sound g memo =
     (\<forall>n r b. map_of (rules g) n = Some r \<and> lookahead_sequence r \<and> memo n = Some b \<longrightarrow> b)"

declare is_def_always_empty.simps [simp del] is_rule_always_empty.simps [simp del]

section \<open>AST cleanup\<close>

text \<open>
  Python's \<open>'__' in s\<close> on a string: \<open>s\<close> has the two-character substring.
\<close>

fun has_sep :: "string \<Rightarrow> bool" where
  "has_sep (a # b # cs) = ((a = CHR ''_'' \<and> b = CHR ''_'') \<or> has_sep (b # cs))"
| "has_sep cs = False"

text \<open>
  The test \<open>isinstance(item, dict) and '__' in item.get('tag', '')\<close>. The
  operator \<open>in\<close> is a substring test on a string, a membership test on a list and
  a key test on a dictionary; on \<open>None\<close>, a boolean or a number it raises
  \<open>TypeError\<close>.
\<close>

definition has_internal_tag :: "pyval \<Rightarrow> error + bool" where
  "has_internal_tag item =
     (case item of
        PDict d \<Rightarrow>
          (case dict_get d ''tag'' of
             None \<Rightarrow> Inr False
           | Some (PStr s) \<Rightarrow> Inr (has_sep s)
           | Some (PList xs) \<Rightarrow> Inr (PStr ''__'' \<in> set xs)
           | Some (PDict kvs) \<Rightarrow> Inr (has_key kvs ''__'')
           | Some _ \<Rightarrow> Inl TypeError)
      | _ \<Rightarrow> Inr False)"

text \<open>
  \<open>_cleanup_ast\<close>. \<open>cleanup_list\<close> is its loop over a list, \<open>cleanup_named\<close> its
  loop over a dictionary of named children, and \<open>cleanup_children\<close> the
  assignment \<open>new_node['children'] = self._cleanup_ast(new_node['children'])\<close> on
  the copy of a node, which leaves every other key as it is.
\<close>

fun cleanup_ast :: "pyval \<Rightarrow> error + pyval"
  and cleanup_list :: "pyval list \<Rightarrow> error + pyval list"
  and cleanup_named :: "(string \<times> pyval) list \<Rightarrow> error + (string \<times> pyval) list"
  and cleanup_children :: "(string \<times> pyval) list \<Rightarrow> error + (string \<times> pyval) list"
where
  "cleanup_ast (PList xs) =
     (case cleanup_list xs of Inl e \<Rightarrow> Inl e | Inr new_list \<Rightarrow> Inr (PList new_list))"
| "cleanup_ast (PDict d) =
     (if has_key d ''tag''
      then (case cleanup_children d of Inl e \<Rightarrow> Inl e | Inr new_node \<Rightarrow> Inr (PDict new_node))
      else (case cleanup_named d of Inl e \<Rightarrow> Inl e | Inr new_dict \<Rightarrow> Inr (PDict new_dict)))"
| "cleanup_ast PNone = Inr PNone"
| "cleanup_ast (PBool b) = Inr (PBool b)"
| "cleanup_ast (PInt i) = Inr (PInt i)"
| "cleanup_ast (PStr s) = Inr (PStr s)"
| "cleanup_list [] = Inr []"
| "cleanup_list (item # rest) =
     (case has_internal_tag item of
        Inl e \<Rightarrow> Inl e
      | Inr True \<Rightarrow> cleanup_list rest
      | Inr False \<Rightarrow>
          (case cleanup_ast item of
             Inl e \<Rightarrow> Inl e
           | Inr cleaned \<Rightarrow>
               (case cleanup_list rest of
                  Inl e \<Rightarrow> Inl e
                | Inr new_list \<Rightarrow> Inr (cleaned # new_list))))"
| "cleanup_named [] = Inr []"
| "cleanup_named ((key, v) # rest) =
     (case has_internal_tag v of
        Inl e \<Rightarrow> Inl e
      | Inr True \<Rightarrow> cleanup_named rest
      | Inr False \<Rightarrow>
          (case cleanup_ast v of
             Inl e \<Rightarrow> Inl e
           | Inr cleaned \<Rightarrow>
               (case cleanup_named rest of
                  Inl e \<Rightarrow> Inl e
                | Inr new_dict \<Rightarrow> Inr ((key, cleaned) # new_dict))))"
| "cleanup_children [] = Inr []"
| "cleanup_children ((key, v) # rest) =
     (if key = ''children''
      then (case cleanup_ast v of Inl e \<Rightarrow> Inl e | Inr cleaned \<Rightarrow> Inr ((key, cleaned) # rest))
      else (case cleanup_children rest of
              Inl e \<Rightarrow> Inl e
            | Inr new_rest \<Rightarrow> Inr ((key, v) # new_rest)))"

text \<open>
  What the cleanup pass establishes, by position in the AST. \<open>ast_clean\<close> is for a
  value in the place of a node (the root, an element of a list of children, a
  value of a dictionary of named children), which may also be a list of nodes;
  \<open>kids_clean\<close> is for the value of a node's \<open>children\<close> field, a list of children
  or a dictionary of named children. No element of a list and no value of a
  dictionary of named children is a node with an internal tag, and the same
  holds below each of them. A dictionary of named children that has a child
  named \<open>tag\<close> is left out: nothing is said of its values.
\<close>

definition internal_node :: "pyval \<Rightarrow> bool" where
  "internal_node v = (has_internal_tag v = Inr True)"


text \<open>
  The nodes claim C1 speaks of, by position: the root, the elements of a list of
  children, the values of a dictionary of children, and the \<open>op\<close>, \<open>left\<close> and
  \<open>right\<close> fields of a node. \<open>some_internal v\<close> holds when one of them has an
  internal tag; \<open>some_internal_kids\<close> is for the value of a \<open>children\<close> field.
\<close>

fun some_internal :: "pyval \<Rightarrow> bool"
  and some_internal_list :: "pyval list \<Rightarrow> bool"
  and some_internal_fields :: "(string \<times> pyval) list \<Rightarrow> bool"
  and some_internal_kids :: "pyval \<Rightarrow> bool"
  and some_internal_named :: "(string \<times> pyval) list \<Rightarrow> bool"
where
  "some_internal (PList xs) = some_internal_list xs"
| "some_internal (PDict d) = (internal_node (PDict d) \<or> some_internal_fields d)"
| "some_internal PNone = False"
| "some_internal (PBool b) = False"
| "some_internal (PInt i) = False"
| "some_internal (PStr s) = False"
| "some_internal_list [] = False"
| "some_internal_list (item # rest) = (some_internal item \<or> some_internal_list rest)"
| "some_internal_fields [] = False"
| "some_internal_fields ((key, v) # rest) =
     ((if key = ''children'' then some_internal_kids v
       else key \<in> {''op'', ''left'', ''right''} \<and> some_internal v)
      \<or> some_internal_fields rest)"
| "some_internal_kids (PList xs) = some_internal_list xs"
| "some_internal_kids (PDict d) = some_internal_named d"
| "some_internal_kids PNone = False"
| "some_internal_kids (PBool b) = False"
| "some_internal_kids (PInt i) = False"
| "some_internal_kids (PStr s) = False"
| "some_internal_named [] = False"
| "some_internal_named ((key, v) # rest) = (some_internal v \<or> some_internal_named rest)"

section \<open>Lexer\<close>

text \<open>
  A token, \<open>Token(type, value, line, col)\<close>. The type is what the spec's
  \<open>token\<close> key holds, \<open>None\<close> when the spec has no such key.
\<close>

record token =
  tok_type :: "string option"
  tok_value :: string
  tok_line :: int
  tok_col :: int

text \<open>
  Python's \<open>re\<close> module is not part of the repository. A compiled regex is taken
  as its \<open>match(text, pos)\<close> method: \<open>None\<close> when there is no match anchored at
  \<open>pos\<close>, otherwise the length of \<open>match.group(0)\<close>, the matched text being the
  text from \<open>pos\<close> on of that length. A compiled spec is the triple
  \<open>(regex, action, token)\<close> of \<open>StatefulLexer.__init__\<close>.
\<close>

type_synonym matcher = "string \<Rightarrow> nat \<Rightarrow> nat option"

type_synonym compiled_spec = "matcher \<times> string option \<times> string option"

record stateful_lexer =
  compiled_specs :: "compiled_spec list"
  tab_width :: nat
  handles_indentation :: bool

definition new_stateful_lexer ::
  "(string \<Rightarrow> matcher) \<Rightarrow> token_spec list \<Rightarrow> nat \<Rightarrow> stateful_lexer" where
  "new_stateful_lexer re_compile token_specs tab =
     \<lparr>compiled_specs =
        map (\<lambda>spec. (re_compile (spec_regex spec), spec_action spec, spec_token spec)) token_specs,
      tab_width = tab,
      handles_indentation = list_ex (\<lambda>spec. spec_action spec = Some ''handle_indent'') token_specs\<rparr>"

definition match_at :: "matcher \<Rightarrow> string \<Rightarrow> nat \<Rightarrow> string option" where
  "match_at regex text pos = map_option (\<lambda>n. take n (drop pos text)) (regex text pos)"

text \<open>
  The loop \<open>for regex, action, token_type in self.compiled_specs\<close> with its state
  \<open>(longest_match, best_spec)\<close>, \<open>None\<close> before the first match.
\<close>

fun select_loop ::
  "compiled_spec list \<Rightarrow> string \<Rightarrow> nat \<Rightarrow> (string \<times> string option \<times> string option) option
     \<Rightarrow> (string \<times> string option \<times> string option) option" where
  "select_loop [] text pos best = best"
| "select_loop ((regex, action, token_type) # rest) text pos best =
     (case match_at regex text pos of
        None \<Rightarrow> select_loop rest text pos best
      | Some m \<Rightarrow>
          if (case best of None \<Rightarrow> True | Some (longest, spec) \<Rightarrow> length m > length longest)
          then select_loop rest text pos (Some (m, action, token_type))
          else select_loop rest text pos best)"

definition longest_match ::
  "compiled_spec list \<Rightarrow> string \<Rightarrow> nat \<Rightarrow> (string \<times> string option \<times> string option) option" where
  "longest_match specs text pos = select_loop specs text pos None"

text \<open>\<open>str(n)\<close> for an integer, as the f-strings of the error messages print it.\<close>

function str_nat :: "nat \<Rightarrow> string" where
  "str_nat n =
     (if n < 10 then [char_of (48 + n)]
      else str_nat (n div 10) @ [char_of (48 + n mod 10)])"
  by pat_completeness auto
termination
  by (relation "measure id") auto

definition str_int :: "int \<Rightarrow> string" where
  "str_int i = (if i < 0 then ''-'' @ str_nat (nat (- i)) else str_nat (nat i))"

text \<open>
  \<open>str.expandtabs(tabsize)\<close> of the Python standard library: a tab becomes the
  spaces up to the next multiple of \<open>tabsize\<close> (nothing when \<open>tabsize\<close> is 0), the
  column starting again after a newline or carriage return.
\<close>

fun expandtabs_from :: "nat \<Rightarrow> nat \<Rightarrow> string \<Rightarrow> string" where
  "expandtabs_from tabsize col [] = []"
| "expandtabs_from tabsize col (c # cs) =
     (if c = CHR 0x09 then
        (if tabsize > 0
         then replicate (tabsize - col mod tabsize) CHR '' '' @
              expandtabs_from tabsize (col + (tabsize - col mod tabsize)) cs
         else expandtabs_from tabsize col cs)
      else if c = newline \<or> c = CHR 0x0D then c # expandtabs_from tabsize 0 cs
      else c # expandtabs_from tabsize (col + 1) cs)"

definition expandtabs :: "nat \<Rightarrow> string \<Rightarrow> string" where
  "expandtabs tabsize s = expandtabs_from tabsize 0 s"

text \<open>The synthetic tokens, and the last element of the indent stack.\<close>

definition indent_token :: "int \<Rightarrow> token" where
  "indent_token line = \<lparr>tok_type = Some ''INDENT'', tok_value = [], tok_line = line, tok_col = 1\<rparr>"

definition dedent_token :: "int \<Rightarrow> token" where
  "dedent_token line = \<lparr>tok_type = Some ''DEDENT'', tok_value = [], tok_line = line, tok_col = 1\<rparr>"

definition stack_top :: "int list \<Rightarrow> error + int" where
  "stack_top indent_stack = (if indent_stack = [] then Inl IndexError else Inr (last indent_stack))"

text \<open>
  The loop \<open>while indent_level < indent_stack[-1]: indent_stack.pop(); tokens.append(DEDENT)\<close>;
  it returns the stack and the tokens it appended.
\<close>

function dedent_loop :: "int \<Rightarrow> int list \<Rightarrow> int \<Rightarrow> token list \<Rightarrow> error + (int list \<times> token list)" where
  "dedent_loop indent_level indent_stack line emitted =
     (case stack_top indent_stack of
        Inl e \<Rightarrow> Inl e
      | Inr top_level \<Rightarrow>
          if indent_level < top_level
          then dedent_loop indent_level (butlast indent_stack) line (emitted @ [dedent_token line])
          else Inr (indent_stack, emitted))"
  by pat_completeness auto
termination
  by (relation "measure (\<lambda>(l, s, n, e). length s)") (auto simp: stack_top_def split: if_splits)

declare dedent_loop.simps [simp del] str_nat.simps [simp del]

text \<open>
  The \<open>handle_indent\<close> branch for a matched text \<open>value\<close> on line \<open>line_num\<close>: the
  stack and the tokens appended, or the exception.
\<close>

definition handle_indent :: "string \<Rightarrow> int list \<Rightarrow> int \<Rightarrow> error + (int list \<times> token list)" where
  "handle_indent v indent_stack line_num =
     (let indent_level = int (length v) - 1 in
      case stack_top indent_stack of
        Inl e \<Rightarrow> Inl e
      | Inr top_level \<Rightarrow>
          (let pushed = (if indent_level > top_level
                         then (indent_stack @ [indent_level], [indent_token (line_num + 1)])
                         else (indent_stack, []))
           in case dedent_loop indent_level (fst pushed) (line_num + 1) (snd pushed) of
                Inl e \<Rightarrow> Inl e
              | Inr (stack1, emitted) \<Rightarrow>
                  (case stack_top stack1 of
                     Inl e \<Rightarrow> Inl e
                   | Inr top1 \<Rightarrow>
                       if indent_level \<noteq> top1
                       then Inl (IndentationError (''Indentation error at L'' @ str_int (line_num + 1)))
                       else Inr (stack1, emitted))))"

text \<open>The state of the \<open>while pos < len(text)\<close> loop and one pass through its body.\<close>

record lex_state =
  st_tokens :: "token list"
  st_indent_stack :: "int list"
  st_line_num :: int
  st_line_start :: nat
  st_pos :: nat

definition count_newlines :: "string \<Rightarrow> nat" where
  "count_newlines v = length (filter (\<lambda>c. c = newline) v)"

text \<open>\<open>value.rfind('\n') + 1\<close> for a value that has a newline.\<close>

definition after_last_newline :: "string \<Rightarrow> nat" where
  "after_last_newline v = length v - length (takeWhile (\<lambda>c. c \<noteq> newline) (rev v))"

definition lex_step :: "compiled_spec list \<Rightarrow> string \<Rightarrow> lex_state \<Rightarrow> error + lex_state" where
  "lex_step specs text s =
     (case longest_match specs text (st_pos s) of
        None \<Rightarrow>
          Inl (SyntaxError (''Unexpected character at L'' @ str_int (st_line_num s) @ '':C'' @
                 str_int (int (st_pos s) - int (st_line_start s) + 1) @ '': '' @
                 [CHR 0x27, text ! st_pos s, CHR 0x27]))
      | Some (v, action, token_type) \<Rightarrow>
          (let col = int (st_pos s) - int (st_line_start s) + 1;
               advance = (\<lambda>s1. s1\<lparr>st_line_num := st_line_num s + int (count_newlines v),
                                 st_line_start := (if count_newlines v > 0
                                                then st_pos s + after_last_newline v
                                                else st_line_start s),
                                 st_pos := st_pos s + length v\<rparr>)
           in if action = Some ''handle_indent''
              then (case handle_indent v (st_indent_stack s) (st_line_num s) of
                      Inl e \<Rightarrow> Inl e
                    | Inr (stack1, emitted) \<Rightarrow>
                        Inr (advance (s\<lparr>st_tokens := st_tokens s @ emitted, st_indent_stack := stack1\<rparr>)))
              else if action \<noteq> Some ''skip''
              then Inr (advance (s\<lparr>st_tokens := st_tokens s @
                          [\<lparr>tok_type = token_type, tok_value = v,
                            tok_line = st_line_num s, tok_col = col\<rparr>]\<rparr>))
              else Inr (advance s)))"

text \<open>
  The loop itself. A spec whose regex matches the empty string leaves \<open>pos\<close>
  where it is, so the loop of the source need not end: the model is a partial
  function, \<open>None\<close> when the loop runs forever.
\<close>

partial_function (option) tokenize_loop ::
  "compiled_spec list \<Rightarrow> string \<Rightarrow> lex_state \<Rightarrow> (error + lex_state) option" where
  "tokenize_loop specs text s =
     (if st_pos s < length text
      then (case lex_step specs text s of
              Inl e \<Rightarrow> Some (Inl e)
            | Inr s1 \<Rightarrow> tokenize_loop specs text s1)
      else Some (Inr s))"

declare tokenize_loop.simps [code]

text \<open>
  The end of input: \<open>while len(indent_stack) > 1: indent_stack.pop(); tokens.append(DEDENT)\<close>
  appends one \<open>DEDENT\<close> per stack element above the first.
\<close>

definition final_dedents :: "int list \<Rightarrow> int \<Rightarrow> token list" where
  "final_dedents stack line = replicate (length stack - 1) (dedent_token line)"

definition initial_lex_state :: lex_state where
  "initial_lex_state = \<lparr>st_tokens = [], st_indent_stack = [0], st_line_num = 1, st_line_start = 0, st_pos = 0\<rparr>"

definition tokenize :: "stateful_lexer \<Rightarrow> string \<Rightarrow> (error + token list) option" where
  "tokenize lx text0 =
     (let text = expandtabs (tab_width lx) text0 in
      case tokenize_loop (compiled_specs lx) text initial_lex_state of
        None \<Rightarrow> None
      | Some (Inl e) \<Rightarrow> Some (Inl e)
      | Some (Inr s) \<Rightarrow>
          Some (Inr (if handles_indentation lx
                     then st_tokens s @ final_dedents (st_indent_stack s) (st_line_num s)
                     else st_tokens s)))"









section \<open>AST builder\<close>

text \<open>
  A node of the matcher's parse tree, as far as the visitor reads it: the name of
  the matched expression (empty for an anonymous one), the kind of expression
  (for a quantifier its \<open>max\<close>, \<open>None\<close> when unbounded), the matched text and its
  start offset, and the child nodes.
\<close>

datatype expr_kind = Lookahead | Quantifier "nat option" | LiteralExpr | RegexExpr | OtherExpr

datatype ptree =
  PNode (expr_name: string) (expr: expr_kind) (node_text: string) (node_start: nat)
        (node_children: "ptree list")

text \<open>
  The visitor: the normalized grammar, the text the position finder was built
  on, and the token list (\<open>None\<close> without a lexer). Python's \<open>float\<close> is taken as
  the parameter \<open>to_number\<close>: \<open>to_number s\<close> is the value of
  \<open>int(val) if val.is_integer() else val\<close> for \<open>val = float(s)\<close>, and \<open>None\<close> when
  \<open>float(s)\<close> raises \<open>ValueError\<close>. The counter \<open>token_idx\<close>, which the visitor
  mutates, is passed to \<open>generic_visit\<close> and returned by it.
\<close>

record visitor =
  grammar :: grammar_dict
  finder_text :: string
  visitor_tokens :: "token list option"
  to_number :: "string \<Rightarrow> pyval option"

definition tokens_on :: "visitor \<Rightarrow> bool" where
  "tokens_on vis = (case visitor_tokens vis of None \<Rightarrow> False | Some ts \<Rightarrow> ts \<noteq> [])"

definition token_rule_names :: "visitor \<Rightarrow> string set" where
  "token_rule_names vis =
     (if tokens_on vis
      then (case lexer (grammar vis) of
              None \<Rightarrow> {}
            | Some specs \<Rightarrow> set (List.map_filter spec_token specs) \<union> {''INDENT'', ''DEDENT''})
      else {})"

subsection \<open>Python operations on values\<close>

text \<open>
  \<open>for x in v\<close>: the elements of a list, the characters of a string, the keys of
  a dictionary; \<open>TypeError\<close> on anything else. \<open>v[key]\<close> for a string key:
  the entry of a dictionary (\<open>KeyError\<close> when absent), \<open>TypeError\<close> on anything
  else. \<open>d[k] = v\<close> keeps the place of a key that is there and appends a new one;
  \<open>del d[k]\<close>. \<open>s.lower()\<close> on ASCII letters.
\<close>

definition py_iter :: "pyval \<Rightarrow> error + pyval list" where
  "py_iter v =
     (case v of
        PList xs \<Rightarrow> Inr xs
      | PStr s \<Rightarrow> Inr (map (\<lambda>c. PStr [c]) s)
      | PDict d \<Rightarrow> Inr (map (\<lambda>kv. PStr (fst kv)) d)
      | _ \<Rightarrow> Inl TypeError)"

definition py_item :: "pyval \<Rightarrow> string \<Rightarrow> error + pyval" where
  "py_item v k =
     (case v of
        PDict d \<Rightarrow> (case dict_get d k of None \<Rightarrow> Inl (KeyError k) | Some x \<Rightarrow> Inr x)
      | _ \<Rightarrow> Inl TypeError)"

fun dict_set :: "(string \<times> 'v) list \<Rightarrow> string \<Rightarrow> 'v \<Rightarrow> (string \<times> 'v) list" where
  "dict_set [] k v = [(k, v)]"
| "dict_set ((k', v') # d) k v = (if k' = k then (k, v) # d else (k', v') # dict_set d k v)"

definition dict_del :: "(string \<times> 'v) list \<Rightarrow> string \<Rightarrow> (string \<times> 'v) list" where
  "dict_del d k = filter (\<lambda>kv. fst kv \<noteq> k) d"

definition str_lower :: "string \<Rightarrow> string" where
  "str_lower s =
     map (\<lambda>c. if CHR ''A'' \<le> c \<and> c \<le> CHR ''Z'' then char_of (of_char c + (32 :: nat)) else c) s"

definition not_none :: "pyval list \<Rightarrow> pyval list" where
  "not_none xs = filter (\<lambda>c. c \<noteq> PNone) xs"

text \<open>
  The deep flattening loop (a stack of pending items, lists unpacked in place,
  \<open>None\<close> dropped): the non-list, non-\<open>None\<close> items in depth-first order.
\<close>

fun flatten_item :: "pyval \<Rightarrow> pyval list" where
  "flatten_item (PList xs) = concat (map flatten_item xs)"
| "flatten_item PNone = []"
| "flatten_item v = [v]"

definition flatten :: "pyval list \<Rightarrow> pyval list" where
  "flatten xs = concat (map flatten_item xs)"

subsection \<open>Grammar lookups of the visitor\<close>

definition is_sequence :: "rule_node \<Rightarrow> bool" where
  "is_sequence rule_def = (case node_shape rule_def of Sequence parts \<Rightarrow> True | _ \<Rightarrow> False)"

definition sequence_def :: "rule_node \<Rightarrow> rule_node list" where
  "sequence_def rule_def = (case node_shape rule_def of Sequence parts \<Rightarrow> parts | _ \<Rightarrow> [])"

definition is_quantifier :: "rule_node \<Rightarrow> bool" where
  "is_quantifier rule_def =
     (case node_shape rule_def of
        OneOrMore v \<Rightarrow> True | ZeroOrMore v \<Rightarrow> True | Optional v \<Rightarrow> True | _ \<Rightarrow> False)"

definition is_literal_or_regex :: "rule_node \<Rightarrow> bool" where
  "is_literal_or_regex rule_def =
     (case node_shape rule_def of Literal v \<Rightarrow> True | Regex v \<Rightarrow> True | _ \<Rightarrow> False)"

definition is_wrapped_leaf :: "rule_node \<Rightarrow> bool" where
  "is_wrapped_leaf rule_def =
     (case node_shape rule_def of
        Sequence [child] \<Rightarrow> is_literal_or_regex child \<and> node_ast child = None
      | _ \<Rightarrow> False)"

text \<open>\<open>get_pos\<close>: the line and column, as the values the node will hold.\<close>

fun first_positioned :: "pyval list \<Rightarrow> (string \<times> pyval) list option" where
  "first_positioned [] = None"
| "first_positioned (PDict d # rest) = (if has_key d ''line'' then Some d else first_positioned rest)"
| "first_positioned (c # rest) = first_positioned rest"

definition get_pos :: "visitor \<Rightarrow> ptree \<Rightarrow> pyval list \<Rightarrow> error + (pyval \<times> pyval)" where
  "get_pos vis node children =
     (if tokens_on vis
      then (case first_positioned children of
              Some d \<Rightarrow>
                (case (py_item (PDict d) ''line'', py_item (PDict d) ''col'') of
                   (Inr l, Inr c) \<Rightarrow> Inr (l, c)
                 | (Inl e, _) \<Rightarrow> Inl e
                 | (_, Inl e) \<Rightarrow> Inl e)
            | None \<Rightarrow> Inr (PInt 1, PInt 1))
      else (case find_pos (finder_text vis) (int (node_start node)) of
              Inl e \<Rightarrow> Inl e
            | Inr (l, c) \<Rightarrow> Inr (PInt l, PInt c)))"

subsection \<open>The branches of \<open>generic_visit\<close>\<close>

text \<open>The node of a token, when the visited rule is a token type of the lexer.\<close>

definition token_spec_ast :: "visitor \<Rightarrow> string option \<Rightarrow> ast_config" where
  "token_spec_ast vis ty =
     (case lexer (grammar vis) of
        None \<Rightarrow> []
      | Some specs \<Rightarrow>
          (case List.find (\<lambda>spec. spec_token spec = ty) specs of
             None \<Rightarrow> []
           | Some spec \<Rightarrow> ast_or_empty (spec_ast spec)))"

definition opt_str :: "string option \<Rightarrow> pyval" where
  "opt_str s = (case s of None \<Rightarrow> PNone | Some x \<Rightarrow> PStr x)"

definition float_error :: error where
  "float_error = ValueError ''could not convert string to float''"

definition visit_token :: "visitor \<Rightarrow> nat \<Rightarrow> error + (pyval \<times> nat)" where
  "visit_token vis token_idx =
     (case visitor_tokens vis of
        None \<Rightarrow> Inr (PNone, token_idx)
      | Some toks \<Rightarrow>
          if token_idx < length toks then
            (let tok = toks ! token_idx;
                 spec_ast = token_spec_ast vis (tok_type tok);
                 base_node = [(''tag'', opt_str (tok_type tok)), (''text'', PStr (tok_value tok)),
                              (''line'', PInt (tok_line tok)), (''col'', PInt (tok_col tok))];
                 spec_type = dict_get spec_ast ''type''
             in if ast_flag spec_ast ''discard'' then Inr (PNone, token_idx + 1)
                else if spec_type = Some (PStr ''number'') then
                  (case to_number vis (tok_value tok) of
                     None \<Rightarrow> Inl float_error
                   | Some n \<Rightarrow> Inr (PDict (base_node @ [(''value'', n)]), token_idx + 1))
                else if spec_type = Some (PStr ''bool'') then
                  Inr (PDict (base_node @ [(''value'', PBool (str_lower (tok_value tok) = ''true''))]),
                       token_idx + 1)
                else if spec_type = Some (PStr ''null'') then
                  Inr (PDict (base_node @ [(''value'', PNone)]), token_idx + 1)
                else Inr (PDict (base_node @ [(''value'', PStr (tok_value tok))]), token_idx + 1))
          else Inr (PNone, token_idx))"

text \<open>A node whose expression has no rule of the grammar.\<close>

definition visit_anonymous :: "visitor \<Rightarrow> ptree \<Rightarrow> pyval list \<Rightarrow> error + pyval" where
  "visit_anonymous vis node visited_children =
     (if expr node = Lookahead \<or> (node_text node = [] \<and> visited_children = []) then Inr PNone
      else if expr node = Quantifier (Some 1) then py_index visited_children 0
      else if (expr node = LiteralExpr \<or> expr node = RegexExpr) \<and> \<not> tokens_on vis then
        (case find_pos (finder_text vis) (int (node_start node)) of
           Inl e \<Rightarrow> Inl e
         | Inr (l, c) \<Rightarrow>
             if node_text node \<noteq> []
             then Inr (PDict [(''tag'', PStr (if expr node = LiteralExpr then ''literal'' else ''regex'')),
                              (''text'', PStr (node_text node)),
                              (''line'', PInt l), (''col'', PInt c)])
             else Inr PNone)
      else Inr (PList (not_none visited_children)))"

text \<open>A leaf rule.\<close>

definition config_tag :: "ast_config \<Rightarrow> string \<Rightarrow> pyval" where
  "config_tag ast_config rule_name =
     (case dict_get ast_config ''tag'' of None \<Rightarrow> PStr rule_name | Some t \<Rightarrow> t)"

definition leaf_node :: "visitor \<Rightarrow> ptree \<Rightarrow> ast_config \<Rightarrow> pyval list \<Rightarrow> error + pyval" where
  "leaf_node vis node ast_config children =
     (case get_pos vis node children of
        Inl e \<Rightarrow> Inl e
      | Inr (l, c) \<Rightarrow>
          (let base_node = [(''tag'', config_tag ast_config (expr_name node)),
                            (''text'', PStr (node_text node)), (''line'', l), (''col'', c)];
               ty = dict_get ast_config ''type''
           in if ty = Some (PStr ''number'') then
                (case to_number vis (node_text node) of
                   None \<Rightarrow> Inl float_error
                 | Some n \<Rightarrow> Inr (PDict (base_node @ [(''value'', n)])))
              else if ty = Some (PStr ''bool'') then
                Inr (PDict (base_node @ [(''value'', PBool (str_lower (node_text node) = ''true''))]))
              else if ty = Some (PStr ''null'') then Inr (PDict (base_node @ [(''value'', PNone)]))
              else Inr (PDict base_node)))"

text \<open>
  A promoted rule. The directives of the promoting rule are applied to a promoted
  dictionary in the order of the source: \<open>tag\<close>, \<open>leaf\<close>, \<open>type\<close>.
\<close>

definition is_literal_node :: "pyval \<Rightarrow> bool" where
  "is_literal_node c =
     (case c of PDict d \<Rightarrow> dict_get d ''tag'' = Some (PStr ''literal'') | _ \<Rightarrow> False)"

definition promoted_value :: "visitor \<Rightarrow> pyval \<Rightarrow> pyval" where
  "promoted_value vis txt_val =
     (case txt_val of
        PStr s \<Rightarrow> (case to_number vis s of None \<Rightarrow> txt_val | Some n \<Rightarrow> n)
      | PInt i \<Rightarrow> PInt i
      | PBool b \<Rightarrow> PInt (if b then 1 else 0)
      | _ \<Rightarrow> txt_val)"

definition apply_type :: "visitor \<Rightarrow> ast_config \<Rightarrow> (string \<times> pyval) list \<Rightarrow> error + pyval" where
  "apply_type vis ast_config d =
     (case dict_get ast_config ''type'' of
        None \<Rightarrow> Inr (PDict d)
      | Some new_type \<Rightarrow>
          (case py_item (PDict d) ''text'' of
             Inl e \<Rightarrow> Inl e
           | Inr txt_val \<Rightarrow>
               if new_type = PStr ''number''
               then Inr (PDict (dict_set d ''value'' (promoted_value vis txt_val)))
               else if new_type = PStr ''bool'' then
                 (case txt_val of
                    PStr s \<Rightarrow> Inr (PDict (dict_set d ''value'' (PBool (str_lower s = ''true''))))
                  | _ \<Rightarrow> Inl AttributeError)
               else if new_type = PStr ''null'' then Inr (PDict (dict_set d ''value'' PNone))
               else Inr (PDict d)))"

definition promote_node ::
  "visitor \<Rightarrow> ptree \<Rightarrow> rule_node \<Rightarrow> ast_config \<Rightarrow> pyval list \<Rightarrow> error + pyval" where
  "promote_node vis node rule_def ast_config children0 =
     (let children = flatten children0;
          promoted_node =
            (if length children = 3 \<and> is_literal_node (children ! 0) \<and>
                is_literal_node (children ! 2)
             then children ! 1
             else if is_sequence rule_def \<or> is_quantifier rule_def then PList children
             else if children = [] then PNone
             else if length children = 1 then children ! 0
             else PList children)
      in case promoted_node of
           PNone \<Rightarrow> Inr PNone
         | PDict d \<Rightarrow>
             (let d1 = (case dict_get ast_config ''tag'' of
                          None \<Rightarrow> d | Some t \<Rightarrow> dict_set d ''tag'' t);
                  d2 = (if dict_get ast_config ''leaf'' = Some (PBool True) \<and> has_key d1 ''children''
                        then dict_del d1 ''children'' else d1)
              in apply_type vis ast_config d2)
         | PList xs \<Rightarrow>
             (case dict_get ast_config ''tag'' of
                None \<Rightarrow> Inr (PList xs)
              | Some t \<Rightarrow>
                  (case get_pos vis node children of
                     Inl e \<Rightarrow> Inl e
                   | Inr (l, c) \<Rightarrow>
                       Inr (PDict [(''tag'', t), (''text'', PStr (node_text node)),
                                   (''line'', l), (''col'', c), (''children'', PList xs)])))
         | other \<Rightarrow> Inr other)"

text \<open>
  The operator structures. \<open>binary_op\<close> is the dictionary literal
  \<open>{"tag": "binary_op", "op": op, "left": left, "right": right, "line": op['line'], "col": op['col']}\<close>,
  and \<open>op_and_right\<close> the assignment \<open>op, right = group[0], group[1]\<close> followed by
  it.
\<close>

definition binary_op :: "pyval \<Rightarrow> pyval \<Rightarrow> pyval \<Rightarrow> error + pyval" where
  "binary_op op left right =
     (case py_item op ''line'' of
        Inl e \<Rightarrow> Inl e
      | Inr l \<Rightarrow>
          (case py_item op ''col'' of
             Inl e \<Rightarrow> Inl e
           | Inr c \<Rightarrow>
               Inr (PDict [(''tag'', PStr ''binary_op''), (''op'', op), (''left'', left),
                           (''right'', right), (''line'', l), (''col'', c)])))"

definition op_and_right :: "pyval \<Rightarrow> pyval list \<Rightarrow> error + pyval" where
  "op_and_right left clean_group =
     (case py_index clean_group 0 of
        Inl e \<Rightarrow> Inl e
      | Inr op \<Rightarrow>
          (case py_index clean_group 1 of
             Inl e \<Rightarrow> Inl e
           | Inr right \<Rightarrow> binary_op op left right))"

fun left_fold :: "pyval \<Rightarrow> pyval list \<Rightarrow> error + pyval" where
  "left_fold left [] = Inr left"
| "left_fold left (grp # rest) =
     (case py_iter grp of
        Inl e \<Rightarrow> Inl e
      | Inr items \<Rightarrow>
          (let clean_group = not_none items
           in if clean_group = [] then left_fold left rest
              else (case op_and_right left clean_group of
                      Inl e \<Rightarrow> Inl e
                    | Inr new_node \<Rightarrow> left_fold new_node rest)))"

definition left_associative_op :: "pyval list \<Rightarrow> error + pyval" where
  "left_associative_op children =
     (case py_index children 0 of
        Inl e \<Rightarrow> Inl e
      | Inr left \<Rightarrow>
          if length children < 2 then Inr left
          else (case py_iter (children ! 1) of
                  Inl e \<Rightarrow> Inl e
                | Inr groups \<Rightarrow> left_fold left groups))"

definition right_associative_op :: "pyval list \<Rightarrow> error + pyval" where
  "right_associative_op children =
     (case py_index children 0 of
        Inl e \<Rightarrow> Inl e
      | Inr left \<Rightarrow>
          if length children < 2 \<or> \<not> truthy (children ! 1) then Inr left
          else (case py_iter (children ! 1) of
                  Inl e \<Rightarrow> Inl e
                | Inr items \<Rightarrow>
                    (let op_and_right_list = not_none items
                     in if op_and_right_list = [] then Inr left
                        else op_and_right left op_and_right_list)))"

text \<open>
  The \<open>map_children\<close> structure. \<open>scan_children\<close> is the fall-forward loop from
  \<open>from_child\<close>; a Python index may be negative.
\<close>

definition is_placeholder :: "pyval \<Rightarrow> bool" where
  "is_placeholder c = (c = PNone \<or> c = PList [])"

function scan_children :: "pyval list \<Rightarrow> int \<Rightarrow> error + pyval" where
  "scan_children child_nodes scan_idx =
     (if scan_idx < int (length child_nodes) then
        (case py_index child_nodes scan_idx of
           Inl e \<Rightarrow> Inl e
         | Inr cand \<Rightarrow>
             if \<not> is_placeholder cand then Inr cand
             else scan_children child_nodes (scan_idx + 1))
      else Inr PNone)"
  by pat_completeness auto
termination
  by (relation "measure (\<lambda>(c, i). nat (int (length c) - i))") auto

declare scan_children.simps [simp del]

fun map_children ::
  "pyval list \<Rightarrow> (string \<times> pyval) list \<Rightarrow> (string \<times> pyval) list \<Rightarrow> error + (string \<times> pyval) list" where
  "map_children child_nodes [] mapped = Inr mapped"
| "map_children child_nodes ((name, mapping) # rest) mapped =
     (case py_item mapping ''from_child'' of
        Inl e \<Rightarrow> Inl e
      | Inr idx \<Rightarrow>
          (case (case idx of PInt i \<Rightarrow> Inr i | PBool b \<Rightarrow> Inr (if b then 1 else 0)
                 | _ \<Rightarrow> Inl TypeError) of
             Inl e \<Rightarrow> Inl e
           | Inr i \<Rightarrow>
               (case scan_children child_nodes i of
                  Inl e \<Rightarrow> Inl e
                | Inr selected \<Rightarrow>
                    map_children child_nodes rest
                      (if \<not> is_placeholder selected then dict_set mapped name selected
                       else mapped))))"

definition structure_node ::
  "visitor \<Rightarrow> ptree \<Rightarrow> (string \<times> pyval) list \<Rightarrow> pyval list \<Rightarrow> pyval list \<Rightarrow> error + pyval" where
  "structure_node vis node structure_config visited_children children =
     (case get_pos vis node children of
        Inl e \<Rightarrow> Inl e
      | Inr (l, c) \<Rightarrow>
          (let child_nodes = (case visited_children of [PList xs] \<Rightarrow> xs | _ \<Rightarrow> visited_children)
           in case (case dict_get structure_config ''map_children'' of
                      None \<Rightarrow> Inr []
                    | Some (PDict m) \<Rightarrow> Inr m
                    | Some _ \<Rightarrow> Inl AttributeError) of
                Inl e \<Rightarrow> Inl e
              | Inr map_children_config \<Rightarrow>
                  (case map_children child_nodes map_children_config [] of
                     Inl e \<Rightarrow> Inl e
                   | Inr mapped \<Rightarrow>
                       Inr (PDict [(''tag'', config_tag structure_config (expr_name node)),
                                   (''text'', PStr (node_text node)), (''line'', l), (''col'', c),
                                   (''children'', PDict mapped)]))))"

text \<open>
  Default node creation. \<open>child_producing_parts\<close> are the parts of the rule's
  sequence that are no lookahead and are not discarded; \<open>name_children\<close> is the
  loop \<open>for i, part in enumerate(child_producing_parts)\<close>. The dictionaries of
  the model have string keys, so a name that is not a string raises.
\<close>

definition is_discarded :: "visitor \<Rightarrow> rule_node \<Rightarrow> bool" where
  "is_discarded vis part =
     (if node_ast part \<noteq> None \<and> ast_flag (ast_or_empty (node_ast part)) ''discard'' then True
      else (case node_shape part of
              Rule r \<Rightarrow>
                (case map_of (rules (grammar vis)) r of
                   None \<Rightarrow> False
                 | Some ref_rule_def \<Rightarrow> ast_flag (ast_or_empty (node_ast ref_rule_def)) ''discard'')
            | _ \<Rightarrow> False))"

definition child_producing_parts :: "visitor \<Rightarrow> rule_node \<Rightarrow> rule_node list" where
  "child_producing_parts vis rule_def =
     filter (\<lambda>part. \<not> is_lookahead_rule part \<and> \<not> is_discarded vis part) (sequence_def rule_def)"

fun name_children ::
  "pyval list \<Rightarrow> nat \<Rightarrow> rule_node list \<Rightarrow> (string \<times> pyval) list \<Rightarrow> error + (string \<times> pyval) list" where
  "name_children children i [] named_children = Inr named_children"
| "name_children children i (part # rest) named_children =
     (case dict_get (ast_or_empty (node_ast part)) ''name'' of
        None \<Rightarrow> name_children children (i + 1) rest named_children
      | Some (PStr child_name) \<Rightarrow>
          name_children children (i + 1) rest
            (dict_set named_children child_name
               (if i < length children then children ! i else PList []))
      | Some _ \<Rightarrow> Inl TypeError)"

definition default_node ::
  "visitor \<Rightarrow> ptree \<Rightarrow> rule_node \<Rightarrow> ast_config \<Rightarrow> pyval list \<Rightarrow> error + pyval" where
  "default_node vis node rule_def ast_config children =
     (case get_pos vis node children of
        Inl e \<Rightarrow> Inl e
      | Inr (l, c) \<Rightarrow>
          (let base_node = [(''tag'', config_tag ast_config (expr_name node)),
                            (''text'', PStr (node_text node)), (''line'', l), (''col'', c)]
           in case name_children children 0 (child_producing_parts vis rule_def) [] of
                Inl e \<Rightarrow> Inl e
              | Inr named_children \<Rightarrow>
                  if named_children \<noteq> []
                  then Inr (PDict (base_node @ [(''children'', PDict named_children)]))
                  else (let unwrapped_children =
                              (case children of [PList xs] \<Rightarrow> xs | _ \<Rightarrow> children)
                        in Inr (PDict (base_node @
                                  [(''children'', PList (flatten unwrapped_children))])))))"

subsection \<open>\<open>generic_visit\<close>\<close>

definition with_idx :: "nat \<Rightarrow> error + pyval \<Rightarrow> error + (pyval \<times> nat)" where
  "with_idx token_idx r = (case r of Inl e \<Rightarrow> Inl e | Inr v \<Rightarrow> Inr (v, token_idx))"

definition generic_visit ::
  "visitor \<Rightarrow> nat \<Rightarrow> ptree \<Rightarrow> pyval list \<Rightarrow> error + (pyval \<times> nat)" where
  "generic_visit vis token_idx node visited_children =
     (let rule_name = expr_name node in
      if tokens_on vis \<and> rule_name \<in> token_rule_names vis then visit_token vis token_idx
      else case map_of (rules (grammar vis)) rule_name of
        None \<Rightarrow> with_idx token_idx (visit_anonymous vis node visited_children)
      | Some rule_def \<Rightarrow>
          (let ast_config = ast_or_empty (node_ast rule_def) in
           if ast_flag ast_config ''discard'' then Inr (PNone, token_idx)
           else
             (let children = not_none visited_children;
                  is_leaf_rule = (ast_flag ast_config ''leaf'' \<or>
                                  (\<not> tokens_on vis \<and> is_literal_or_regex rule_def) \<or>
                                  is_wrapped_leaf rule_def)
              in with_idx token_idx
                   (if is_leaf_rule then leaf_node vis node ast_config children
                    else if ast_flag ast_config ''promote''
                    then promote_node vis node rule_def ast_config children
                    else (case dict_get ast_config ''structure'' of
                            Some (PStr structure_config) \<Rightarrow>
                              if structure_config = ''left_associative_op''
                              then left_associative_op children
                              else if structure_config = ''right_associative_op''
                              then right_associative_op children
                              else default_node vis node rule_def ast_config children
                          | Some (PDict structure_config) \<Rightarrow>
                              structure_node vis node structure_config visited_children children
                          | _ \<Rightarrow> default_node vis node rule_def ast_config children)))))"

text \<open>
  The result claim C3 states, in its own words: the left-nested fold of
  \<open>binary_op\<close> nodes over the operand \<open>V1\<close> and the pairs \<open>(O, V)\<close>, each node taking
  its \<open>line\<close> and \<open>col\<close> from its operator. An operator node is given by its
  dictionary.
\<close>

definition binary_op_node :: "(string \<times> pyval) list \<Rightarrow> pyval \<Rightarrow> pyval \<Rightarrow> pyval" where
  "binary_op_node op left right =
     PDict [(''tag'', PStr ''binary_op''), (''op'', PDict op), (''left'', left), (''right'', right),
            (''line'', the (dict_get op ''line'')), (''col'', the (dict_get op ''col''))]"

fun left_nested :: "pyval \<Rightarrow> ((string \<times> pyval) list \<times> pyval) list \<Rightarrow> pyval" where
  "left_nested left [] = left"
| "left_nested left ((op, right) # rest) = left_nested (binary_op_node op left right) rest"

definition op_groups :: "((string \<times> pyval) list \<times> pyval) list \<Rightarrow> pyval" where
  "op_groups pairs = PList (map (\<lambda>(op, right). PList [PDict op, right]) pairs)"

text \<open>
  The conditions under which \<open>generic_visit\<close> reaches the \<open>structure\<close> and default
  branches for the rule \<open>rule_def\<close> of the visited node: the node is no token of
  the lexer, and the rule is neither discarded, nor a leaf rule, nor promoted.
\<close>

definition plain_rule_visit :: "visitor \<Rightarrow> ptree \<Rightarrow> rule_node \<Rightarrow> bool" where
  "plain_rule_visit vis node rule_def =
     (\<not> (tokens_on vis \<and> expr_name node \<in> token_rule_names vis) \<and>
      map_of (rules (grammar vis)) (expr_name node) = Some rule_def \<and>
      \<not> ast_flag (ast_or_empty (node_ast rule_def)) ''discard'' \<and>
      \<not> ast_flag (ast_or_empty (node_ast rule_def)) ''leaf'' \<and>
      (tokens_on vis \<or> \<not> is_literal_or_regex rule_def) \<and>
      \<not> is_wrapped_leaf rule_def \<and>
      \<not> ast_flag (ast_or_empty (node_ast rule_def)) ''promote'')"

definition default_structure :: "rule_node \<Rightarrow> bool" where
  "default_structure rule_def =
     (case dict_get (ast_or_empty (node_ast rule_def)) ''structure'' of
        None \<Rightarrow> True
      | Some (PStr s) \<Rightarrow> s \<noteq> ''left_associative_op'' \<and> s \<noteq> ''right_associative_op''
      | Some (PDict d) \<Rightarrow> False
      | Some _ \<Rightarrow> True)"

definition part_name :: "rule_node \<Rightarrow> pyval option" where
  "part_name part = dict_get (ast_or_empty (node_ast part)) ''name''"

definition string_names :: "rule_node list \<Rightarrow> bool" where
  "string_names parts =
     list_all (\<lambda>part. case part_name part of None \<Rightarrow> True | Some (PStr n) \<Rightarrow> True | _ \<Rightarrow> False) parts"

text \<open>
  Two small grammars for the examples: a left-associative \<open>expr\<close> over \<open>term\<close>
  and \<open>add_op\<close>, and a \<open>clone\<close> rule whose sequence names a \<open>repo\<close> part and an
  optional \<open>dest\<close> part.
\<close>

definition calc_visitor :: visitor where
  "calc_visitor =
     \<lparr>grammar =
        \<lparr>start_rule = Some ''expr'',
         rules =
           [(''expr'',
             RuleNode (Sequence [RuleNode (Rule ''term'') None,
                                 RuleNode (ZeroOrMore (RuleNode (Sequence
                                   [RuleNode (Rule ''add_op'') None, RuleNode (Rule ''term'') None])
                                   None)) None])
                      (Some [(''structure'', PStr ''left_associative_op'')])),
            (''term'', RuleNode (Regex ''[0-9]+'') (Some [(''leaf'', PBool True)])),
            (''add_op'', RuleNode (Regex ''[-+]'') (Some [(''leaf'', PBool True)]))],
         lexer = None\<rparr>,
      finder_text = ''8-2-1'',
      visitor_tokens = None,
      to_number = (\<lambda>s. None)\<rparr>"

text \<open>
  The test \<open>is_leaf_rule\<close> of \<open>generic_visit\<close>, and the grammar of \<open>calc_visitor\<close>
  with \<open>leaf: true\<close> added to the \<open>ast\<close> block of \<open>expr\<close>.
\<close>

definition is_leaf_rule :: "visitor \<Rightarrow> rule_node \<Rightarrow> bool" where
  "is_leaf_rule vis rule_def =
     (ast_flag (ast_or_empty (node_ast rule_def)) ''leaf'' \<or>
      (\<not> tokens_on vis \<and> is_literal_or_regex rule_def) \<or>
      is_wrapped_leaf rule_def)"

definition leaf_calc_visitor :: visitor where
  "leaf_calc_visitor =
     \<lparr>grammar =
        \<lparr>start_rule = Some ''expr'',
         rules =
           [(''expr'',
             RuleNode (Sequence [RuleNode (Rule ''term'') None,
                                 RuleNode (ZeroOrMore (RuleNode (Sequence
                                   [RuleNode (Rule ''add_op'') None, RuleNode (Rule ''term'') None])
                                   None)) None])
                      (Some [(''structure'', PStr ''left_associative_op''), (''leaf'', PBool True)])),
            (''term'', RuleNode (Regex ''[0-9]+'') (Some [(''leaf'', PBool True)])),
            (''add_op'', RuleNode (Regex ''[-+]'') (Some [(''leaf'', PBool True)]))],
         lexer = None\<rparr>,
      finder_text = ''8-2-1'',
      visitor_tokens = None,
      to_number = (\<lambda>s. None)\<rparr>"

definition clone_visitor :: visitor where
  "clone_visitor =
     \<lparr>grammar =
        \<lparr>start_rule = Some ''clone'',
         rules =
           [(''clone'',
             RuleNode (Sequence [RuleNode (Rule ''path'') (Some [(''name'', PStr ''repo'')]),
                                 RuleNode (Optional (RuleNode (Rule ''target'') None))
                                          (Some [(''name'', PStr ''dest'')])])
                      None),
            (''path'', RuleNode (Regex ''/[a-z/]+'') (Some [(''leaf'', PBool True)])),
            (''target'', RuleNode (Sequence [RuleNode (Literal '' TO '') None,
                                             RuleNode (Rule ''path'') None]) None)],
         lexer = None\<rparr>,
      finder_text = ''/repo'',
      visitor_tokens = None,
      to_number = (\<lambda>s. None)\<rparr>"

section \<open>Parsing\<close>

text \<open>
  \<open>NodeVisitor.visit\<close> belongs to the matcher library: it visits the children of
  a node from left to right, calls \<open>generic_visit\<close> with the node and the
  children's results, and re-raises an exception of \<open>generic_visit\<close> wrapped in a
  \<open>VisitationError\<close>. The token counter runs through the traversal.
\<close>

fun visit :: "visitor \<Rightarrow> nat \<Rightarrow> ptree \<Rightarrow> error + (pyval \<times> nat)"
  and visit_all :: "visitor \<Rightarrow> nat \<Rightarrow> ptree list \<Rightarrow> error + (pyval list \<times> nat)"
where
  "visit vis token_idx (PNode name ex txt start kids) =
     (case visit_all vis token_idx kids of
        Inl e \<Rightarrow> Inl e
      | Inr (visited_children, idx1) \<Rightarrow>
          (case generic_visit vis idx1 (PNode name ex txt start kids) visited_children of
             Inl e \<Rightarrow> Inl (VisitationError e)
           | Inr r \<Rightarrow> Inr r))"
| "visit_all vis token_idx [] = Inr ([], token_idx)"
| "visit_all vis token_idx (kid # kids) =
     (case visit vis token_idx kid of
        Inl e \<Rightarrow> Inl e
      | Inr (v, idx1) \<Rightarrow>
          (case visit_all vis idx1 kids of
             Inl e \<Rightarrow> Inl e
           | Inr (vs, idx2) \<Rightarrow> Inr (v # vs, idx2)))"

text \<open>
  The compiled grammar \<open>config\<close>. The matcher is taken as the function
  \<open>config_matcher start_rule text\<close>, which stands for
  \<open>config['grammar'][start_rule].parse(text)\<close>: it returns the parse tree or raises
  (\<open>KeyError\<close> for a start rule the grammar does not have, \<open>ParseError\<close>,
  \<open>IncompleteParseError\<close>).
\<close>

record compiled_grammar =
  config_grammar_dict :: grammar_dict
  config_is_token_grammar :: bool
  config_lexer :: "stateful_lexer option"
  config_start_rule :: string
  config_matcher :: "string \<Rightarrow> string \<Rightarrow> error + ptree"

datatype parse_result = Success pyval | Error string

text \<open>
  The body of the \<open>try\<close> block. It returns \<open>None\<close> when the lexer does not end;
  otherwise the tokens as far as they were assigned (\<open>None\<close> when the lexer raised
  or the grammar has no lexer) together with the AST or the exception.
\<close>

definition token_string :: "token list \<Rightarrow> error + string" where
  "token_string toks =
     (if list_all (\<lambda>t. tok_type t \<noteq> None) toks
      then Inr (str_join '' '' (map (\<lambda>t. the (tok_type t)) toks))
      else Inl TypeError)"

definition visit_and_cleanup ::
  "compiled_grammar \<Rightarrow> (string \<Rightarrow> pyval option) \<Rightarrow> string \<Rightarrow> token list option \<Rightarrow> ptree
     \<Rightarrow> error + pyval" where
  "visit_and_cleanup config to_num text toks tree =
     (case visit \<lparr>grammar = config_grammar_dict config, finder_text = text,
                  visitor_tokens = toks, to_number = to_num\<rparr> 0 tree of
        Inl e \<Rightarrow> Inl e
      | Inr (ast, idx) \<Rightarrow> cleanup_ast ast)"

definition try_body ::
  "compiled_grammar \<Rightarrow> (string \<Rightarrow> pyval option) \<Rightarrow> string \<Rightarrow> string
     \<Rightarrow> (token list option \<times> (error + pyval)) option" where
  "try_body config to_num text rule =
     (if config_is_token_grammar config then
        (case config_lexer config of
           None \<Rightarrow> Some (None, Inl (KeyError ''lexer''))
         | Some lx \<Rightarrow>
             (case tokenize lx text of
                None \<Rightarrow> None
              | Some (Inl e) \<Rightarrow> Some (None, Inl e)
              | Some (Inr toks) \<Rightarrow>
                  Some (Some toks,
                    (case token_string toks of
                       Inl e \<Rightarrow> Inl e
                     | Inr ts \<Rightarrow>
                         (case config_matcher config rule ts of
                            Inl e \<Rightarrow> Inl e
                          | Inr tree \<Rightarrow> visit_and_cleanup config to_num text (Some toks) tree)))))
      else Some (None,
             (case config_matcher config rule text of
                Inl e \<Rightarrow> Inl e
              | Inr tree \<Rightarrow> visit_and_cleanup config to_num text None tree)))"

text \<open>The messages of the \<open>except\<close> clause.\<close>

definition snippet_at :: "string \<Rightarrow> nat \<Rightarrow> string" where
  "snippet_at text p = takeWhile (\<lambda>c. c \<noteq> newline) (take 20 (drop p text))"

definition token_error_message :: "token list \<Rightarrow> nat \<Rightarrow> string" where
  "token_error_message toks p =
     (let ts = str_join '' '' (map (\<lambda>t. the (tok_type t)) toks);
          error_token_idx = length (filter (\<lambda>c. c = CHR '' '') (take p ts))
      in if error_token_idx < length toks
         then (let error_token = toks ! error_token_idx
               in ''Syntax error at L'' @ str_int (tok_line error_token) @ '':C'' @
                  str_int (tok_col error_token) @ '' near '' @ [CHR 0x27] @ tok_value error_token @
                  [CHR 0x27] @ ''. Unexpected token: '' @ the (tok_type error_token) @ ''.'')
         else ''Syntax error at end of input.'')"

definition expected_things :: "expected_expr list option \<Rightarrow> string list" where
  "expected_things exprs =
     (case exprs of
        None \<Rightarrow> []
      | Some es \<Rightarrow>
          sort (remdups (concat (map (\<lambda>(rule_name, literal).
                  case rule_name of
                    Some k \<Rightarrow> [k]
                  | None \<Rightarrow>
                      (case literal of
                         Some lit \<Rightarrow> (if lit \<noteq> [] then [''literal '' @ [CHR 0x22] @ lit @ [CHR 0x22]] else [])
                       | None \<Rightarrow> [])) es))))"

definition position_prefix :: "string \<Rightarrow> nat \<Rightarrow> error + string" where
  "position_prefix text p =
     (case find_pos text (int p) of
        Inl e \<Rightarrow> Inl e
      | Inr (l, c) \<Rightarrow> Inr (''Syntax error at L'' @ str_int l @ '':C'' @ str_int c))"

definition incomplete_message :: "string \<Rightarrow> nat \<Rightarrow> error + string" where
  "incomplete_message text p =
     (case position_prefix text p of
        Inl e \<Rightarrow> Inl e
      | Inr prefix \<Rightarrow>
          Inr (prefix @ ''. Failed to consume entire input. Unconsumed input begins with: '' @
               [CHR 0x27] @ snippet_at text p @ ''...'' @ [CHR 0x27]))"

definition mismatch_message :: "string \<Rightarrow> nat \<Rightarrow> expected_expr list option \<Rightarrow> error + string" where
  "mismatch_message text p exprs =
     (case position_prefix text p of
        Inl e \<Rightarrow> Inl e
      | Inr prefix \<Rightarrow>
          (let snippet = snippet_at text p;
               expected = expected_things exprs;
               m1 = (if snippet \<noteq> []
                     then prefix @ '' near '' @ [CHR 0x27] @ snippet @ ''...'' @ [CHR 0x27]
                     else prefix)
           in Inr (if expected \<noteq> []
                   then m1 @ ''. Expected one of: '' @ str_join '', '' expected @ ''.''
                   else if snippet = [] then m1 @ ''. Unexpected end of input.''
                   else m1)))"

text \<open>
  The \<open>except (ParseError, IncompleteParseError, SyntaxError, IndentationError)\<close>
  clause: an exception of one of these four kinds becomes an error result, any
  other exception propagates. \<open>toks\<close> is the variable \<open>tokens\<close> as the \<open>try\<close> block
  left it.
\<close>

definition handle_exception ::
  "compiled_grammar \<Rightarrow> string \<Rightarrow> token list option \<Rightarrow> error \<Rightarrow> error + parse_result" where
  "handle_exception config text toks e =
     (case e of
        ParseError p msg exprs \<Rightarrow>
          (if config_is_token_grammar config
           then (case toks of
                   None \<Rightarrow> Inr (Error msg)
                 | Some ts \<Rightarrow> Inr (Error (token_error_message ts p)))
           else (case mismatch_message text p exprs of
                   Inl e1 \<Rightarrow> Inl e1
                 | Inr m \<Rightarrow> Inr (Error m)))
      | IncompleteParseError p msg \<Rightarrow>
          (if config_is_token_grammar config
           then (case toks of
                   None \<Rightarrow> Inr (Error msg)
                 | Some ts \<Rightarrow> Inr (Error (token_error_message ts p)))
           else (case incomplete_message text p of
                   Inl e1 \<Rightarrow> Inl e1
                 | Inr m \<Rightarrow> Inr (Error m)))
      | SyntaxError msg \<Rightarrow> Inr (Error msg)
      | IndentationError msg \<Rightarrow> Inr (Error msg)
      | other \<Rightarrow> Inl other)"

text \<open>
  \<open>_parse_internal\<close>, and with it \<open>Parser.parse\<close>, which only passes the compiled
  grammar of the parser: \<open>None\<close> when the call does not return, \<open>Inl\<close> an
  exception that leaves the call, \<open>Inr\<close> the dictionary returned.
\<close>

definition parse_internal ::
  "compiled_grammar \<Rightarrow> (string \<Rightarrow> pyval option) \<Rightarrow> string \<Rightarrow> string option
     \<Rightarrow> (error + parse_result) option" where
  "parse_internal config to_num text rule =
     (let rule1 = (case rule of None \<Rightarrow> config_start_rule config | Some r \<Rightarrow> r)
      in case try_body config to_num text rule1 of
           None \<Rightarrow> None
         | Some (toks, Inr ast) \<Rightarrow> Some (Inr (Success ast))
         | Some (toks, Inl e) \<Rightarrow> Some (handle_exception config text toks e))"

text \<open>The four kinds of exception the claim C2 names.\<close>

definition caught :: "error \<Rightarrow> bool" where
  "caught e =
     (case e of
        ParseError p msg exprs \<Rightarrow> True
      | IncompleteParseError p msg \<Rightarrow> True
      | SyntaxError msg \<Rightarrow> True
      | IndentationError msg \<Rightarrow> True
      | _ \<Rightarrow> False)"

text \<open>
  Compiled grammars for the examples. Each matcher is given at the one input of
  its example, where it returns the parse tree the PEG rules printed with it
  produce; on any other input it raises a \<open>ParseError\<close>. \<open>digits_to_number\<close>
  stands for \<open>float\<close> on the strings of the examples: a string of digits is its
  number, and \<open>1.2.3\<close> is no number.
\<close>

definition digits_to_number :: "string \<Rightarrow> pyval option" where
  "digits_to_number s =
     (if s \<noteq> [] \<and> list_all (\<lambda>c. CHR ''0'' \<le> c \<and> c \<le> CHR ''9'') s
      then Some (PInt (foldl (\<lambda>n c. 10 * n + (int (of_char c) - 48)) 0 s))
      else None)"

text \<open>
  \<open>number = ~r"[0-9.]+"\<close>, a leaf rule of type \<open>number\<close>, on the input \<open>1.2.3\<close>.
\<close>

definition number_config :: compiled_grammar where
  "number_config =
     \<lparr>config_grammar_dict =
        \<lparr>start_rule = Some ''number'',
         rules = [(''number'', RuleNode (Regex ''[0-9.]+'')
                     (Some [(''leaf'', PBool True), (''type'', PStr ''number'')]))],
         lexer = None\<rparr>,
      config_is_token_grammar = False,
      config_lexer = None,
      config_start_rule = ''number'',
      config_matcher = (\<lambda>rule text.
        if rule = ''number'' \<and> text = ''1.2.3''
        then Inr (PNode ''number'' RegexExpr ''1.2.3'' 0 [])
        else Inl (ParseError 0 [] None))\<rparr>"


text \<open>
  The normalized form of \<open>start\<close>, a sequence of an inline leaf definition and a
  reference: \<open>start = (start__1 b)\<close>, \<open>b = ~r"b"\<close>, \<open>start__1 = (~r"a" ("")?)\<close>,
  on the input \<open>ab\<close>.
\<close>

definition sequence_config :: compiled_grammar where
  "sequence_config =
     \<lparr>config_grammar_dict =
        \<lparr>start_rule = Some ''start'',
         rules =
           [(''start'', RuleNode (Sequence [RuleNode (Rule ''start__1'') None,
                                            RuleNode (Rule ''b'') None]) None),
            (''b'', RuleNode (Regex ''b'') (Some [(''leaf'', PBool True)])),
            (''start__1'', RuleNode (Sequence [RuleNode (Regex ''a'') None])
                             (Some [(''leaf'', PBool True)]))],
         lexer = None\<rparr>,
      config_is_token_grammar = False,
      config_lexer = None,
      config_start_rule = ''start'',
      config_matcher = (\<lambda>rule text.
        if rule = ''start'' \<and> text = ''ab''
        then Inr (PNode ''start'' OtherExpr ''ab'' 0
               [PNode ''start__1'' OtherExpr ''a'' 0
                  [PNode [] RegexExpr ''a'' 0 [], PNode [] (Quantifier (Some 1)) [] 1 []],
                PNode ''b'' RegexExpr ''b'' 1 []])
        else Inl (ParseError 0 [] None))\<rparr>"



section \<open>Grammar normalization\<close>

text \<open>
  \<open>_normalize_grammar\<close> gives a name to every inline definition that carries an
  \<open>ast\<close> block. \<open>is_inline_def_with_ast\<close>: the node has an \<open>ast\<close> block whose keys
  are not just \<open>name\<close>, is no rule reference, and has one of the keys of
  \<open>rule_keys\<close> (every shape but \<open>rule\<close> and \<open>subgrammar\<close>).
\<close>

definition is_inline_def_with_ast :: "rule_node \<Rightarrow> bool" where
  "is_inline_def_with_ast d =
     (case node_ast d of
        None \<Rightarrow> False
      | Some ast_config \<Rightarrow>
          if map fst ast_config = [''name''] then False
          else (case node_shape d of
                  Rule v \<Rightarrow> False
                | Subgrammar f \<Rightarrow> False
                | _ \<Rightarrow> True))"

text \<open>
  The walker mutates the node it is given and assigns to the shared dictionary
  \<open>rules\<close>. The model returns the node as the walk leaves it; its state is the
  cell \<open>counter[0]\<close> and the assignments \<open>rules[new_rule_name] = ...\<close> the walk has
  made, in order (the walker never reads \<open>rules\<close>). \<open>hoist\<close> is the branch taken
  for an inline definition: the counter goes up, the definition without its
  \<open>ast\<close> block becomes the only part of the new rule's sequence, and a plain
  reference to the new rule takes its place. The walker does not descend into a
  hoisted definition. The payload of a \<open>subgrammar\<close> directive, which both parser
  classes have replaced before the grammar is normalized, is not walked.
\<close>

type_synonym walk_state = "nat \<times> (string \<times> rule_node) list"

definition hoist :: "string \<Rightarrow> rule_node \<Rightarrow> walk_state \<Rightarrow> rule_node \<times> walk_state" where
  "hoist base_name item st =
     (let counter = fst st + 1;
          new_rule_name = base_name @ ''__'' @ str_nat counter
      in (RuleNode (Rule new_rule_name) None,
          (counter,
           snd st @ [(new_rule_name,
                      RuleNode (Sequence [RuleNode (node_shape item) None]) (node_ast item))])))"

function (sequential) walker :: "string \<Rightarrow> rule_node \<Rightarrow> walk_state \<Rightarrow> rule_node \<times> walk_state"
  and walk_value :: "string \<Rightarrow> rule_node \<Rightarrow> walk_state \<Rightarrow> rule_node \<times> walk_state"
  and walk_list :: "string \<Rightarrow> rule_node list \<Rightarrow> walk_state \<Rightarrow> rule_node list \<times> walk_state"
where
  "walker base_name (RuleNode sh a) st =
     (case sh of
        Choice vs \<Rightarrow>
          (case walk_list base_name vs st of (vs1, st1) \<Rightarrow> (RuleNode (Choice vs1) a, st1))
      | Sequence vs \<Rightarrow>
          (case walk_list base_name vs st of (vs1, st1) \<Rightarrow> (RuleNode (Sequence vs1) a, st1))
      | ZeroOrMore v \<Rightarrow>
          (case walk_value base_name v st of (v1, st1) \<Rightarrow> (RuleNode (ZeroOrMore v1) a, st1))
      | OneOrMore v \<Rightarrow>
          (case walk_value base_name v st of (v1, st1) \<Rightarrow> (RuleNode (OneOrMore v1) a, st1))
      | Optional v \<Rightarrow>
          (case walk_value base_name v st of (v1, st1) \<Rightarrow> (RuleNode (Optional v1) a, st1))
      | PositiveLookahead v \<Rightarrow>
          (case walk_value base_name v st of (v1, st1) \<Rightarrow> (RuleNode (PositiveLookahead v1) a, st1))
      | NegativeLookahead v \<Rightarrow>
          (case walk_value base_name v st of (v1, st1) \<Rightarrow> (RuleNode (NegativeLookahead v1) a, st1))
      | _ \<Rightarrow> (RuleNode sh a, st))"
| "walk_value base_name item st =
     (if is_inline_def_with_ast item then hoist base_name item st
      else walker base_name item st)"
| "walk_list base_name [] st = ([], st)"
| "walk_list base_name (item # rest) st =
     (case walk_value base_name item st of
        (item1, st1) \<Rightarrow>
          (case walk_list base_name rest st1 of (rest1, st2) \<Rightarrow> (item1 # rest1, st2)))"
  by pat_completeness auto

termination walker
  by (relation "measure (\<lambda>x. case x of
          Inl (b, n, st) \<Rightarrow> 2 * size n
        | Inr (Inl (b, n, st)) \<Rightarrow> 2 * size n + 1
        | Inr (Inr (b, ns, st)) \<Rightarrow> 2 * size_list size ns + 1)") auto

text \<open>
  One pass of \<open>for name, rule_def in rules_to_process.items()\<close>. The snapshot
  \<open>rules_to_process\<close> holds the rule objects that were in \<open>rules_map\<close> when the
  pass began, and each is walked with a fresh counter. What the walk changes in
  the object shows in \<open>rules_map\<close> as long as the object is still there: once an
  assignment \<open>rules[new_rule_name] = ...\<close> of this pass has put another object
  under the name, the snapshot's object is walked all the same (the rules it
  hoists are added), but \<open>rules_map\<close> keeps the object that replaced it.
  \<open>replaced\<close> lists the names assigned so far in the pass.
\<close>

fun process_rules ::
  "(string \<times> rule_node) list \<Rightarrow> (string \<times> rule_node) list \<Rightarrow> string list \<Rightarrow>
   (string \<times> rule_node) list" where
  "process_rules [] rules_map replaced = rules_map"
| "process_rules ((name, rule_def) # rest) rules_map replaced =
     (case walker name rule_def (0, []) of
        (rule_def1, counter, new_rules) \<Rightarrow>
          (let rules1 = fold (\<lambda>(n, d) m. dict_set m n d) new_rules rules_map;
               replaced1 = replaced @ map fst new_rules
           in process_rules rest
                (if name \<in> set replaced1 then rules1 else dict_set rules1 name rule_def1)
                replaced1))"

definition rules_to_process ::
  "(string \<times> rule_node) list \<Rightarrow> string list \<Rightarrow> (string \<times> rule_node) list" where
  "rules_to_process rules_map processed_rules =
     filter (\<lambda>(name, rule). name \<notin> set processed_rules) rules_map"

text \<open>
  The loop \<open>while True\<close>: it ends when every name of \<open>rules_map\<close> is in
  \<open>processed_rules\<close>.
\<close>

partial_function (option) normalize_loop ::
  "(string \<times> rule_node) list \<Rightarrow> string list \<Rightarrow> (string \<times> rule_node) list option" where
  "normalize_loop rules_map processed_rules =
     (if rules_to_process rules_map processed_rules = [] then Some rules_map
      else normalize_loop
             (process_rules (rules_to_process rules_map processed_rules) rules_map [])
             (processed_rules @ map fst (rules_to_process rules_map processed_rules)))"

declare normalize_loop.simps [code]

definition normalize_grammar :: "grammar_dict \<Rightarrow> grammar_dict option" where
  "normalize_grammar g =
     map_option (\<lambda>new_rules. g\<lparr>rules := new_rules\<rparr>) (normalize_loop (rules g) [])"

section \<open>Linter: unreachable rules and directive conflicts\<close>

text \<open>
  \<open>find_references\<close> collects the value under the key \<open>rule\<close> of every dictionary
  in a rule definition, \<open>ast\<close> blocks included, in a set. A value that is a list
  or a dictionary cannot go into a set (\<open>TypeError\<close>); a value that is no string
  (\<open>None\<close>, a boolean, a number) can, and is \<open>None\<close> in the model: it is the name of
  no rule. The set is modelled as a list.
\<close>

fun both :: "error + 'a list \<Rightarrow> error + 'a list \<Rightarrow> error + 'a list" where
  "both (Inl e) r = Inl e"
| "both (Inr xs) (Inl e) = Inl e"
| "both (Inr xs) (Inr ys) = Inr (xs @ ys)"

fun value_references :: "pyval \<Rightarrow> error + string option list"
  and values_references :: "pyval list \<Rightarrow> error + string option list"
  and items_references :: "(string \<times> pyval) list \<Rightarrow> error + string option list"
where
  "value_references (PDict d) =
     both (case dict_get d ''rule'' of
             None \<Rightarrow> Inr []
           | Some (PStr s) \<Rightarrow> Inr [Some s]
           | Some (PList xs) \<Rightarrow> Inl TypeError
           | Some (PDict kvs) \<Rightarrow> Inl TypeError
           | Some _ \<Rightarrow> Inr [None])
          (items_references d)"
| "value_references (PList xs) = values_references xs"
| "value_references PNone = Inr []"
| "value_references (PBool b) = Inr []"
| "value_references (PInt i) = Inr []"
| "value_references (PStr s) = Inr []"
| "values_references [] = Inr []"
| "values_references (x # xs) = both (value_references x) (values_references xs)"
| "items_references [] = Inr []"
| "items_references ((k, v) # kvs) = both (value_references v) (items_references kvs)"

fun find_references :: "rule_node \<Rightarrow> error + string option list"
  and find_references_list :: "rule_node list \<Rightarrow> error + string option list"
where
  "find_references (RuleNode sh a) =
     both (case sh of
             Rule v \<Rightarrow> Inr [Some v]
           | Choice vs \<Rightarrow> find_references_list vs
           | Sequence vs \<Rightarrow> find_references_list vs
           | ZeroOrMore v \<Rightarrow> find_references v
           | OneOrMore v \<Rightarrow> find_references v
           | Optional v \<Rightarrow> find_references v
           | PositiveLookahead v \<Rightarrow> find_references v
           | NegativeLookahead v \<Rightarrow> find_references v
           | _ \<Rightarrow> Inr [])
          (case a of None \<Rightarrow> Inr [] | Some c \<Rightarrow> value_references (PDict c))"
| "find_references_list [] = Inr []"
| "find_references_list (v # vs) = both (find_references v) (find_references_list vs)"

text \<open>
  The loop \<open>while queue\<close> of \<open>_check_for_unreachable_rules\<close>. Its result is
  \<open>None\<close> when the check is given up at a reference to a rule that is not
  defined, and the reachable rules otherwise.
\<close>

function reach_loop ::
  "grammar_dict \<Rightarrow> string option list \<Rightarrow> string list \<Rightarrow> error + string list option" where
  "reach_loop g [] reachable = Inr (Some reachable)"
| "reach_loop g (None # queue) reachable = Inr None"
| "reach_loop g (Some current_rule # queue) reachable =
     (if current_rule \<in> set reachable then reach_loop g queue reachable
      else case dict_get (rules g) current_rule of
             None \<Rightarrow> Inr None
           | Some rule_definition \<Rightarrow>
               (case find_references rule_definition of
                  Inl e \<Rightarrow> Inl e
                | Inr references \<Rightarrow>
                    reach_loop g
                      (queue @ filter (\<lambda>ref. ref \<notin> Some ` set (current_rule # reachable))
                                 (remdups references))
                      (current_rule # reachable)))"
  by pat_completeness auto

termination
proof (relation "measures [\<lambda>(g, queue, reachable). card (set (map fst (rules g)) - set reachable),
                           \<lambda>(g, queue, reachable). length queue]", goal_cases)
  case 1
  show ?case by simp
next
  case (2 g current_rule queue reachable)
  then show ?case by simp
next
  case (3 g current_rule queue reachable rule_definition references)
  from 3(2) have "(current_rule, rule_definition) \<in> set (rules g)"
    by (simp add: dict_get_def map_of_SomeD)
  then have "current_rule \<in> set (map fst (rules g))"
    by force
  with 3(1) have "set (map fst (rules g)) - set (current_rule # reachable)
                    \<subset> set (map fst (rules g)) - set reachable"
    by auto
  then have "card (set (map fst (rules g)) - set (current_rule # reachable))
               < card (set (map fst (rules g)) - set reachable)"
    by (intro psubset_card_mono) auto
  then show ?case by simp
qed

declare reach_loop.simps [simp del]

definition check_for_unreachable_rules :: "grammar_dict \<Rightarrow> string list \<Rightarrow> error + unit" where
  "check_for_unreachable_rules g external_refs =
     (let all_rules = map fst (rules g);
          start = (case start_rule g of None \<Rightarrow> ''start'' | Some s \<Rightarrow> s)
      in if start \<notin> set all_rules then Inr ()
         else case reach_loop g (map Some (start # external_refs)) [] of
                Inl e \<Rightarrow> Inl e
              | Inr None \<Rightarrow> Inr ()
              | Inr (Some reachable) \<Rightarrow>
                  (let unreachable =
                         filter (\<lambda>rule. rule \<notin> set reachable \<and> \<not> has_sep rule) (remdups all_rules)
                   in if unreachable \<noteq> []
                      then Inl (ValueError (''Unreachable rules detected: '' @
                                            str_join '', '' (sort unreachable)))
                      else Inr ()))"

text \<open>
  The last loop of \<open>_lint_grammar\<close>: \<open>promote\<close> excludes \<open>structure\<close> and
  \<open>discard\<close>.
\<close>

fun check_directives :: "(string \<times> rule_node) list \<Rightarrow> error + unit" where
  "check_directives [] = Inr ()"
| "check_directives ((rule_name, rule_def) # rest) =
     (let ast_config = ast_or_empty (node_ast rule_def);
          has_promote = ast_flag ast_config ''promote'';
          has_structure = has_key ast_config ''structure'';
          has_discard = ast_flag ast_config ''discard''
      in if has_promote \<and> has_structure
         then Inl (ValueError (''In rule '' @ [CHR 0x27] @ rule_name @ [CHR 0x27] @
                ('': '' @ [CHR 0x27] @ ''promote'' @ [CHR 0x27] @ '' and '' @ [CHR 0x27] @
                 ''structure'' @ [CHR 0x27] @ '' directives are mutually exclusive.'')))
         else if has_promote \<and> has_discard
         then Inl (ValueError (''In rule '' @ [CHR 0x27] @ rule_name @ [CHR 0x27] @
                ('': '' @ [CHR 0x27] @ ''promote: true'' @ [CHR 0x27] @ '' is redundant when '' @
                 [CHR 0x27] @ ''discard: true'' @ [CHR 0x27] @ '' is also present.'')))
         else check_directives rest)"

section \<open>Grammar construction\<close>

text \<open>
  \<open>_lint_grammar\<close>: the three checks in order, the first exception ending it.
\<close>

definition lint_grammar :: "grammar_dict \<Rightarrow> string list \<Rightarrow> error + unit" where
  "lint_grammar g external_refs =
     (case check_for_unreachable_rules g external_refs of
        Inl e \<Rightarrow> Inl e
      | Inr u \<Rightarrow>
          (case check_for_always_empty_rules g of
             Inl e \<Rightarrow> Inl e
           | Inr u \<Rightarrow> check_directives (rules g)))"

text \<open>
  \<open>_compile_grammar_from_dict(grammar_dict, lint)\<close>, which both parser classes
  call to build their grammar. \<open>external_refs\<close> is the value of the key
  \<open>_external_refs\<close> of the dictionary, \<open>[]\<close> when it has none. \<open>re_compile\<close> is
  \<open>re.compile\<close>, and \<open>peg_grammar\<close> stands for the statement
  \<open>try: config['grammar'] = Grammar(config['grammar_string']) except ...\<close> as a
  whole: it returns the matcher of the compiled grammar or the exception the
  statement ends with. The result is \<open>None\<close> when normalization does not end.
\<close>

definition compile_grammar_from_dict ::
  "(string \<Rightarrow> matcher) \<Rightarrow> (string \<Rightarrow> error + (string \<Rightarrow> string \<Rightarrow> error + ptree)) \<Rightarrow>
   grammar_dict \<Rightarrow> string list \<Rightarrow> bool \<Rightarrow> (error + compiled_grammar) option" where
  "compile_grammar_from_dict re_compile peg_grammar grammar_dict external_refs lint =
     (case normalize_grammar grammar_dict of
        None \<Rightarrow> None
      | Some g \<Rightarrow>
          Some (case (if lint then lint_grammar g external_refs else Inr ()) of
                  Inl e \<Rightarrow> Inl e
                | Inr u \<Rightarrow>
                    (case transpile_grammar g of
                       Inl e \<Rightarrow> Inl e
                     | Inr grammar_string \<Rightarrow>
                         (case peg_grammar grammar_string of
                            Inl e \<Rightarrow> Inl e
                          | Inr compiled \<Rightarrow>
                              Inr \<lparr>config_grammar_dict = g,
                                   config_is_token_grammar = (lexer g \<noteq> None),
                                   config_lexer =
                                     map_option (\<lambda>specs. new_stateful_lexer re_compile specs 8)
                                       (lexer g),
                                   config_start_rule =
                                     (case start_rule g of None \<Rightarrow> ''start'' | Some s \<Rightarrow> s),
                                   config_matcher = compiled\<rparr>))))"

text \<open>
  A grammar in which the user has named a rule \<open>a__1\<close>, the name normalization
  gives the first inline definition of rule \<open>a\<close>; the rule is an empty choice.
\<close>

definition shadowed_choice_grammar :: grammar_dict where
  "shadowed_choice_grammar =
     \<lparr>start_rule = Some ''a'',
      rules = [(''a'', RuleNode (Sequence [RuleNode (Regex ''x'') (Some [(''leaf'', PBool True)])])
                        None),
               (''a__1'', RuleNode (Choice []) None)],
      lexer = None\<rparr>"

section \<open>Theorems: position finder\<close>

lemma scan_line_starts_gt: "x \<in> set (scan_line_starts i cs) \<Longrightarrow> i < x"
  by (induction i cs rule: scan_line_starts.induct) (auto split: if_splits)

lemma scan_line_starts_sorted: "sorted (scan_line_starts i cs)"
  by (induction i cs rule: scan_line_starts.induct)
     (auto dest: scan_line_starts_gt simp: less_imp_le)

lemma line_starts_sorted: "sorted (line_starts s)"
  by (simp add: line_starts_def scan_line_starts_sorted)

lemma line_starts_nth0: "line_starts s ! 0 = 0" "0 < length (line_starts s)"
  by (simp_all add: line_starts_def)

lemma bisect_loop_bounds:
  "lo \<le> hi \<Longrightarrow> lo \<le> bisect_loop a x lo hi \<and> bisect_loop a x lo hi \<le> hi"
proof (induction a x lo hi rule: bisect_loop.induct)
  case (1 a x lo hi)
  show ?case
  proof (cases "lo < hi")
    case False
    with "1.prems" show ?thesis by simp
  next
    case True
    define mid where "mid = (lo + hi) div 2"
    have m: "lo \<le> mid" "mid < hi" using True by (auto simp: mid_def)
    show ?thesis
    proof (cases "x < int (a ! mid)")
      case lt: True
      have "lo \<le> bisect_loop a x lo mid \<and> bisect_loop a x lo mid \<le> mid"
        using "1.IH"(1)[OF True mid_def lt] m by simp
      moreover have "bisect_loop a x lo hi = bisect_loop a x lo mid"
        using True lt by (subst bisect_loop.simps) (simp add: mid_def Let_def)
      ultimately show ?thesis using m by simp
    next
      case ge: False
      have "mid + 1 \<le> bisect_loop a x (mid + 1) hi \<and> bisect_loop a x (mid + 1) hi \<le> hi"
        using "1.IH"(2)[OF True mid_def ge] m by simp
      moreover have "bisect_loop a x lo hi = bisect_loop a x (mid + 1) hi"
        using True ge by (subst bisect_loop.simps) (simp add: mid_def Let_def)
      ultimately show ?thesis using m by simp
    qed
  qed
qed

lemma bisect_loop_split:
  assumes "sorted a" "lo \<le> hi" "hi \<le> length a"
    and "\<forall>j<lo. int (a ! j) \<le> x"
    and "\<forall>j. hi \<le> j \<and> j < length a \<longrightarrow> x < int (a ! j)"
  shows "(\<forall>j<bisect_loop a x lo hi. int (a ! j) \<le> x) \<and>
         (\<forall>j. bisect_loop a x lo hi \<le> j \<and> j < length a \<longrightarrow> x < int (a ! j))"
  using assms
proof (induction a x lo hi rule: bisect_loop.induct)
  case (1 a x lo hi)
  show ?case
  proof (cases "lo < hi")
    case False
    with "1.prems" have "lo = hi" by simp
    with "1.prems" False show ?thesis by (subst (1 2) bisect_loop.simps) simp
  next
    case True
    define mid where "mid = (lo + hi) div 2"
    have m: "lo \<le> mid" "mid < hi" using True by (auto simp: mid_def)
    show ?thesis
    proof (cases "x < int (a ! mid)")
      case lt: True
      have eq: "bisect_loop a x lo hi = bisect_loop a x lo mid"
        using True lt by (subst bisect_loop.simps) (simp add: mid_def Let_def)
      have up: "\<forall>j. mid \<le> j \<and> j < length a \<longrightarrow> x < int (a ! j)"
      proof (intro allI impI)
        fix j assume j: "mid \<le> j \<and> j < length a"
        then have "a ! mid \<le> a ! j" using \<open>sorted a\<close> by (simp add: sorted_nth_mono)
        with lt show "x < int (a ! j)" by simp
      qed
      show ?thesis unfolding eq
        using "1.IH"(1)[OF True mid_def lt "1.prems"(1) m(1) _ "1.prems"(4) up] m "1.prems"(3)
        by simp
    next
      case ge: False
      have eq: "bisect_loop a x lo hi = bisect_loop a x (mid + 1) hi"
        using True ge by (subst bisect_loop.simps) (simp add: mid_def Let_def)
      have low: "\<forall>j<mid + 1. int (a ! j) \<le> x"
      proof (intro allI impI)
        fix j assume j: "j < mid + 1"
        then have "a ! j \<le> a ! mid" using \<open>sorted a\<close> m "1.prems"(3)
          by (simp add: sorted_nth_mono)
        with ge show "int (a ! j) \<le> x" by simp
      qed
      show ?thesis unfolding eq
        using "1.IH"(2)[OF True mid_def ge "1.prems"(1) _ "1.prems"(3) low "1.prems"(5)] m
        by simp
    qed
  qed
qed

lemma bisect_right_spec:
  assumes "sorted a"
  shows "bisect_right a x \<le> length a \<and> (\<forall>j<bisect_right a x. int (a ! j) \<le> x) \<and>
         (\<forall>j. bisect_right a x \<le> j \<and> j < length a \<longrightarrow> x < int (a ! j))"
  using bisect_loop_bounds[of 0 "length a" a x] bisect_loop_split[OF assms, of 0 "length a" x]
  by (simp add: bisect_right_def)

lemma clamp_offset_eq: "clamp_offset s offset = max 0 (min offset (int (length s)))"
  by (simp add: clamp_offset_def Let_def)

text \<open>
  Claim C9. For every text and every integer offset, negative ones and ones past the
  end included, \<open>find\<close> returns (it does not raise) the pair \<open>(l, c)\<close> where, with
  \<open>off\<close> the offset clamped into \<open>[0, len(text)]\<close>, \<open>l\<close> is the 1-based index of the
  greatest line start that is at most \<open>off\<close> (no later line start is at most \<open>off\<close>),
  and \<open>c = off - line_start + 1\<close>.
\<close>

theorem find_pos_spec:
  fixes src :: string and offset :: int
  defines "off \<equiv> max 0 (min offset (int (length src)))"
    and "ls \<equiv> line_starts src"
  shows "\<exists>l. 1 \<le> l \<and> l \<le> length ls \<and>
           int (ls ! (l - 1)) \<le> off \<and>
           (\<forall>j<length ls. int (ls ! j) \<le> off \<longrightarrow> j \<le> l - 1 \<and> ls ! j \<le> ls ! (l - 1)) \<and>
           find_pos src offset = Inr (int l, off - int (ls ! (l - 1)) + 1)"
proof -
  define l where "l = bisect_right ls off"
  have s: "sorted ls" by (simp add: ls_def line_starts_sorted)
  have off0: "0 \<le> off" by (simp add: off_def)
  note sp = bisect_right_spec[OF s, of off, folded l_def]
  have l1: "1 \<le> l"
  proof (rule ccontr)
    assume "\<not> 1 \<le> l"
    then have "l = 0" by simp
    with sp line_starts_nth0[of src] off0 show False by (auto simp: ls_def)
  qed
  have le: "int (ls ! (l - 1)) \<le> off" using sp l1 by simp
  have gr: "\<forall>j<length ls. int (ls ! j) \<le> off \<longrightarrow> j \<le> l - 1 \<and> ls ! j \<le> ls ! (l - 1)"
  proof (intro allI impI)
    fix j assume j: "j < length ls" "int (ls ! j) \<le> off"
    with sp have "\<not> l \<le> j" by force
    then have "j \<le> l - 1" by simp
    moreover from this have "ls ! j \<le> ls ! (l - 1)"
      using s sp l1 by (intro sorted_nth_mono) auto
    ultimately show "j \<le> l - 1 \<and> ls ! j \<le> ls ! (l - 1)" by simp
  qed
  have idx: "py_index ls (int l - 1) = Inr (ls ! (l - 1))"
    using l1 sp by (simp add: py_index_def nat_diff_distrib')
  have "find_pos src offset = Inr (int l, off - int (ls ! (l - 1)) + 1)"
    using idx by (simp add: find_pos_def Let_def clamp_offset_eq off_def ls_def l_def)
  with l1 sp le gr show ?thesis by blast
qed

theorem find_pos_spec_witness:
  "line_starts ''ab\<newline>cd\<newline>'' = [0, 3, 6] \<and>
   find_pos ''ab\<newline>cd\<newline>'' 4 = Inr (2, 2) \<and>
   find_pos ''ab\<newline>cd\<newline>'' (- 3) = Inr (1, 1) \<and>
   find_pos ''ab\<newline>cd\<newline>'' 100 = Inr (3, 1)"
proof -
  have ls: "line_starts ''ab\<newline>cd\<newline>'' = [0, 3, 6]"
    by code_simp
  show ?thesis
    using find_pos_spec[of "''ab\<newline>cd\<newline>''" 4]
      find_pos_spec[of "''ab\<newline>cd\<newline>''" "- 3"]
      find_pos_spec[of "''ab\<newline>cd\<newline>''" 100]
    unfolding ls
    by (auto simp: nth_Cons' less_Suc_eq split: if_splits)
qed

section \<open>Theorems: grammar-to-PEG transpiler\<close>

lemma collect_Inl_iff: "(\<exists>e. collect rs = Inl e) \<longleftrightarrow> (\<exists>r\<in>set rs. \<exists>e. r = Inl e)"
proof (induction rs)
  case Nil
  then show ?case by simp
next
  case (Cons r rs)
  then show ?case by (cases r) (auto split: sum.splits)
qed

lemma collect_Inl_mem: "collect rs = Inl e \<Longrightarrow> Inl e \<in> set rs"
proof (induction rs)
  case Nil
  then show ?case by simp
next
  case (Cons r rs)
  then show ?case by (cases r) (auto split: sum.splits)
qed

lemma transpile_rule_raises_ValueError:
  "transpile_rule tok n = Inl e \<Longrightarrow> \<exists>msg. e = ValueError msg"
proof (induction tok n arbitrary: e rule: transpile_rule.induct)
  case (6 tok vs a)
  then show ?case
    by (auto split: if_splits sum.splits dest!: collect_Inl_mem)
next
  case (7 tok vs a)
  then show ?case
    by (auto split: if_splits sum.splits dest!: collect_Inl_mem)
qed (auto simp: Let_def split: if_splits sum.splits)

lemma has_empty_choice_raises:
  "has_empty_choice n \<Longrightarrow> \<exists>e. transpile_rule tok n = Inl e"
proof (induction tok n rule: transpile_rule.induct)
  case (6 tok vs a)
  show ?case
  proof (cases "vs = []")
    case True
    then show ?thesis by simp
  next
    case False
    with "6.prems" obtain v where v: "v \<in> set vs" "has_empty_choice v"
      by (auto simp: list_ex_iff)
    with "6.IH"[OF False] obtain e where "transpile_rule tok v = Inl e" by blast
    with v have "\<exists>r\<in>set (map (transpile_rule tok) vs). \<exists>e. r = Inl e" by force
    then obtain e' where "collect (map (transpile_rule tok) vs) = Inl e'"
      using collect_Inl_iff by blast
    with False show ?thesis by simp
  qed
next
  case (7 tok vs a)
  then have False: "vs \<noteq> []" by auto
  with "7.prems" obtain v where v: "v \<in> set vs" "has_empty_choice v"
    by (auto simp: list_ex_iff)
  with "7.IH"[OF False] obtain e where "transpile_rule tok v = Inl e" by blast
  with v have "\<exists>r\<in>set (map (transpile_rule tok) vs). \<exists>e. r = Inl e" by force
  then obtain e' where "collect (map (transpile_rule tok) vs) = Inl e'"
    using collect_Inl_iff by blast
  with False show ?case by simp
qed (auto split: sum.splits)

text \<open>
  Claim C6, as stated, fails: for a rule reference \<open>{rule: X}\<close> whose \<open>ast\<close> block
  has a key other than \<open>name\<close> the transpiler emits \<open>(X ("")?)\<close>, a sequence of
  \<open>X\<close> and an optional empty literal, not \<open>(X (""))?\<close>; and it emits the same for
  a reference whose \<open>ast\<close> block is empty, which has no key other than \<open>name\<close>.
\<close>

theorem transpile_rule_ref_counterexample:
  \<open>transpile_rule False (RuleNode (Rule ''X'') (Some [(''discard'', PBool True)]))
     = Inr ''(X ("")?)'' \<and>
   transpile_rule False (RuleNode (Rule ''X'') (Some [(''discard'', PBool True)]))
     \<noteq> Inr ''(X (""))?'' \<and>
   transpile_rule False (RuleNode (Rule ''X'') (Some [])) = Inr ''(X ("")?)''\<close>
  by (simp add: ast_or_empty_def)

text \<open>
  Claim C6, amended. For every rule reference \<open>{rule: X}\<close>, in a grammar with or
  without a lexer, the transpiler emits \<open>X\<close> when the node has no \<open>ast\<close> block or an
  \<open>ast\<close> block whose only key is \<open>name\<close>, and emits \<open>(X ("")?)\<close> for every other
  \<open>ast\<close> block, the empty one included. It never raises.
\<close>

theorem transpile_rule_ref:
  \<open>transpile_rule is_token_grammar (RuleNode (Rule x) a) =
     (if a = None \<or> map fst (ast_or_empty a) = [''name''] then Inr x
      else Inr (''('' @ x @ '' ("")?)''))\<close>
proof -
  have "(length ks = 1 \<and> ''name'' \<in> set ks) = (ks = [''name''])" for ks :: "string list"
    by (cases ks) auto
  then show ?thesis by (simp add: Let_def)
qed

text \<open>
  The transpiler rejects every rule set it is given in which a rule contains a
  choice with an empty list of alternatives: \<open>transpile_grammar\<close> raises
  \<open>ValueError\<close>, with or without a lexer.
\<close>

lemma transpile_grammar_rejects_empty_choice:
  assumes "grammar_has_empty_choice g"
  shows "\<exists>msg. transpile_grammar g = Inl (ValueError msg)"
proof -
  from assms obtain name rule where nr: "(name, rule) \<in> set (rules g)" "has_empty_choice rule"
    by (auto simp: grammar_has_empty_choice_def list_ex_iff)
  define line where "line = (\<lambda>(name, rule).
                      case transpile_rule (lexer g \<noteq> None) rule of
                        Inl e \<Rightarrow> Inl e
                      | Inr body \<Rightarrow> (Inr (name @ '' = '' @ body) :: error + string))"
  from has_empty_choice_raises[OF nr(2)]
  obtain e where "transpile_rule (lexer g \<noteq> None) rule = Inl e"
    by blast
  then have "line (name, rule) = Inl e" by (simp add: line_def)
  with nr(1) have "\<exists>r\<in>set (map line (rules g)). \<exists>e. r = Inl e" by force
  then obtain e' where e': "collect (map line (rules g)) = Inl e'"
    using collect_Inl_iff by blast
  then have "Inl e' \<in> set (map line (rules g))" by (rule collect_Inl_mem)
  then obtain n' r' where "transpile_rule (lexer g \<noteq> None) r' = Inl e'"
    by (auto simp: line_def split: sum.splits)
  then obtain msg where "e' = ValueError msg"
    using transpile_rule_raises_ValueError by blast
  with e' show ?thesis
    by (simp add: transpile_grammar_def Let_def line_def)
qed

section \<open>Theorems: the always-empty lint\<close>

lemma plain_lookahead_empty:
  "plain_lookahead p \<Longrightarrow> is_def_always_empty g p memo = (True, memo)"
  by (cases p) (auto simp: is_def_always_empty.simps plain_lookahead_def is_lookahead_rule_def Let_def split: shape.splits)

lemma all_plain_lookahead_empty:
  "list_all plain_lookahead ps \<Longrightarrow> all_always_empty g ps memo = (True, memo)"
  by (induction ps) (simp_all add: plain_lookahead_empty)

lemma lookahead_sequence_empty:
  "lookahead_sequence r \<Longrightarrow> is_def_always_empty g r memo = (True, memo)"
  by (cases r) (auto simp: is_def_always_empty.simps lookahead_sequence_def Let_def all_plain_lookahead_empty split: shape.splits)


lemma memo_sound_preserved:
  "memo_sound g memo \<Longrightarrow> memo_sound g (snd (is_def_always_empty g n memo))"
  "memo_sound g memo \<Longrightarrow> memo_sound g (snd (all_always_empty g ns memo))"
  "memo_sound g memo \<Longrightarrow> memo_sound g (snd (is_rule_always_empty g name memo))"
proof (induct g n memo and g ns memo and g name memo
       rule: is_def_always_empty_all_always_empty_is_rule_always_empty.induct)
  case (1 g sh a memo)
  then show ?case
    by (simp add: is_def_always_empty.simps Let_def split: shape.splits option.splits)
next
  case (2 g memo)
  then show ?case by simp
next
  case (3 g p ps memo)
  obtain e m1 where r: "is_def_always_empty g p memo = (e, m1)"
    by (cases "is_def_always_empty g p memo")
  from 3(1)[OF 3(3)] r have m1: "memo_sound g m1" by simp
  show ?case
  proof (cases e)
    case True
    with 3(2)[OF r[symmetric] _ m1] r show ?thesis by simp
  next
    case False
    with r m1 show ?thesis by simp
  qed
next
  case (4 g rule_name memo)
  show ?case
  proof (cases "memo rule_name")
    case (Some known)
    with 4(2) show ?thesis by (simp add: is_rule_always_empty.simps)
  next
    case None
    show ?thesis
    proof (cases "map_of (rules g) rule_name")
      case n: None
      with None 4(2) show ?thesis by (simp add: is_rule_always_empty.simps)
    next
      case (Some rule_def)
      show ?thesis
      proof (cases "lookahead_sequence rule_def")
        case True
        then have "is_def_always_empty g rule_def (memo(rule_name \<mapsto> False))
                   = (True, memo(rule_name \<mapsto> False))"
          by (rule lookahead_sequence_empty)
        with None Some have "snd (is_rule_always_empty g rule_name memo) = memo(rule_name \<mapsto> True)"
          by (simp add: is_rule_always_empty.simps)
        with 4(2) show ?thesis by (auto simp: memo_sound_def)
      next
        case False
        obtain e m1 where r: "is_def_always_empty g rule_def (memo(rule_name \<mapsto> False)) = (e, m1)"
          by (cases "is_def_always_empty g rule_def (memo(rule_name \<mapsto> False))")
        have "memo_sound g (memo(rule_name \<mapsto> False))"
          using 4(2) False Some by (auto simp: memo_sound_def)
        from 4(1)[OF None Some this] r have "memo_sound g m1" by (simp add: fun_upd_def)
        then have "memo_sound g (m1(rule_name \<mapsto> e))"
          using False Some by (auto simp: memo_sound_def)
        moreover have "snd (is_rule_always_empty g rule_name memo) = m1(rule_name \<mapsto> e)"
          using None Some r by (simp add: is_rule_always_empty.simps)
        ultimately show ?thesis by (simp only:)
      qed
    qed
  qed
qed

lemma lookahead_sequence_rule_empty:
  assumes "memo_sound g memo" "map_of (rules g) name = Some r" "lookahead_sequence r"
  shows "fst (is_rule_always_empty g name memo)"
proof (cases "memo name")
  case None
  with assms(2) lookahead_sequence_empty[OF assms(3), of g "memo(name \<mapsto> False)"]
  show ?thesis by (simp add: is_rule_always_empty.simps)
next
  case (Some b)
  with assms have b by (auto simp: memo_sound_def)
  with Some show ?thesis by (simp add: is_rule_always_empty.simps)
qed

lemma always_empty_loop_keeps: "set acc \<subseteq> set (always_empty_loop g rest memo acc)"
proof (induction rest arbitrary: memo acc)
  case Nil
  then show ?case by simp
next
  case (Cons x rest)
  obtain name r where x: "x = (name, r)" by (cases x)
  obtain e m1 where ir: "is_rule_always_empty g name memo = (e, m1)"
    by (cases "is_rule_always_empty g name memo")
  show ?case
    using Cons.IH[of acc memo] Cons.IH[of acc m1] Cons.IH[of "acc @ [name]" m1]
    by (auto simp: x ir)
qed

lemma always_empty_loop_reports:
  assumes "memo_sound g memo" "(name, r) \<in> set rest" "map_of (rules g) name = Some r"
    "lookahead_sequence r"
  shows "name \<in> set (always_empty_loop g rest memo acc)"
  using assms(1,2)
proof (induction rest arbitrary: memo acc)
  case Nil
  then show ?case by simp
next
  case (Cons x rest)
  obtain name' r' where x: "x = (name', r')" by (cases x)
  obtain e m1 where ir: "is_rule_always_empty g name' memo = (e, m1)"
    by (cases "is_rule_always_empty g name' memo")
  have m1: "memo_sound g m1"
    using memo_sound_preserved(3)[OF Cons.prems(1), of name'] ir by simp
  show ?case
  proof (cases "x = (name, r)")
    case True
    then have nr: "name' = name" "r' = r" using x by auto
    have nd: "\<not> ast_flag (ast_or_empty (node_ast r)) ''discard''"
      and nl: "\<not> is_lookahead_rule r"
      using assms(4) by (auto simp: lookahead_sequence_def is_lookahead_rule_def split: shape.splits)
    have e using lookahead_sequence_rule_empty[OF Cons.prems(1) assms(3,4)] ir nr by simp
    then have "always_empty_loop g (x # rest) memo acc = always_empty_loop g rest m1 (acc @ [name])"
      using nd nl ir nr x by simp
    moreover have "name \<in> set (always_empty_loop g rest m1 (acc @ [name]))"
      using always_empty_loop_keeps[of "acc @ [name]" g rest m1] by auto
    ultimately show ?thesis by simp
  next
    case False
    with Cons.prems(2) have mem: "(name, r) \<in> set rest" by auto
    show ?thesis
      using Cons.IH[OF Cons.prems(1) mem] Cons.IH[OF m1 mem]
      by (simp add: x ir)
  qed
qed

lemma always_empty_loop_only:
  "set (always_empty_loop g rest memo acc) \<subseteq>
     set acc \<union> {n. \<exists>r. (n, r) \<in> set rest \<and> \<not> is_lookahead_rule r \<and>
                       \<not> ast_flag (ast_or_empty (node_ast r)) ''discard''}"
proof (induction rest arbitrary: memo acc)
  case Nil
  then show ?case by simp
next
  case (Cons x rest)
  obtain name r where x: "x = (name, r)" by (cases x)
  obtain e m1 where ir: "is_rule_always_empty g name memo = (e, m1)"
    by (cases "is_rule_always_empty g name memo")
  show ?case
    using Cons.IH[of memo acc] Cons.IH[of m1 acc] Cons.IH[of m1 "acc @ [name]"]
    by (auto simp: x ir)
qed

text \<open>
  Claim C7, as stated, fails: the classification returns \<open>True\<close> (empty) for a
  lookahead node, and the lint reports the rule \<open>r\<close> whose body is the sequence of
  one positive lookahead.
\<close>

theorem lookahead_not_empty_counterexample:
  "fst (is_def_always_empty
      \<lparr>start_rule = Some ''r'',
       rules = [(''r'', RuleNode (Sequence
                  [RuleNode (PositiveLookahead (RuleNode (Literal ''a'') None)) None]) None)],
       lexer = None\<rparr>
      (RuleNode (PositiveLookahead (RuleNode (Literal ''a'') None)) None) Map.empty) \<and>
   implicitly_empty_rules
      \<lparr>start_rule = Some ''r'',
       rules = [(''r'', RuleNode (Sequence
                  [RuleNode (PositiveLookahead (RuleNode (Literal ''a'') None)) None]) None)],
       lexer = None\<rparr> = [''r''] \<and>
   check_for_always_empty_rules
      \<lparr>start_rule = Some ''r'',
       rules = [(''r'', RuleNode (Sequence
                  [RuleNode (PositiveLookahead (RuleNode (Literal ''a'') None)) None]) None)],
       lexer = None\<rparr> \<noteq> Inr ()"
  by (simp add: check_for_always_empty_rules_def implicitly_empty_rules_def
      is_def_always_empty.simps is_rule_always_empty.simps ast_or_empty_def ast_flag_def
      dict_get_def has_key_def is_lookahead_rule_def names_child_def)

text \<open>
  Claim C7, amended. In the always-empty classification a positive or negative
  lookahead node that carries neither a \<open>structure\<close> nor a \<open>leaf\<close> directive is a
  base case classified as empty. Consequently a rule whose body is a sequence all
  of whose parts are such lookaheads, with no part naming a child (the rule itself
  carrying none of \<open>discard\<close>, \<open>structure\<close>, \<open>leaf\<close>), is classified always-empty
  whatever the memo holds, and the always-empty lint reports it and raises. The
  lint never reports a rule whose own body is a lookahead.
\<close>

theorem lookahead_always_empty:
  "(plain_lookahead p \<longrightarrow> is_def_always_empty g p memo = (True, memo)) \<and>
   (lookahead_sequence r \<longrightarrow> is_def_always_empty g r memo = (True, memo)) \<and>
   (lookahead_sequence r \<and> (name, r) \<in> set (rules g) \<and> distinct (map fst (rules g)) \<longrightarrow>
      name \<in> set (implicitly_empty_rules g) \<and>
      (\<exists>msg. check_for_always_empty_rules g = Inl (ValueError msg))) \<and>
   (is_lookahead_rule r \<and> (name, r) \<in> set (rules g) \<and> distinct (map fst (rules g)) \<longrightarrow>
      name \<notin> set (implicitly_empty_rules g))"
proof (intro conjI impI)
  assume a: "lookahead_sequence r \<and> (name, r) \<in> set (rules g) \<and> distinct (map fst (rules g))"
  then have m: "map_of (rules g) name = Some r" by simp
  have "memo_sound g Map.empty" by (simp add: memo_sound_def)
  from always_empty_loop_reports[OF this _ m, of "rules g" "[]"] a
  show n: "name \<in> set (implicitly_empty_rules g)"
    by (simp add: implicitly_empty_rules_def)
  then have "implicitly_empty_rules g \<noteq> []" by auto
  then show "\<exists>msg. check_for_always_empty_rules g = Inl (ValueError msg)"
    by (simp add: check_for_always_empty_rules_def)
next
  assume a: "is_lookahead_rule r \<and> (name, r) \<in> set (rules g) \<and> distinct (map fst (rules g))"
  show "name \<notin> set (implicitly_empty_rules g)"
  proof
    assume "name \<in> set (implicitly_empty_rules g)"
    with always_empty_loop_only[of g "rules g" Map.empty "[]"]
    obtain r' where r': "(name, r') \<in> set (rules g)" "\<not> is_lookahead_rule r'"
      by (auto simp: implicitly_empty_rules_def)
    with a have "r' = r" using map_of_is_SomeI[of "rules g" name] by fastforce
    with r' a show False by simp
  qed
qed (simp_all add: plain_lookahead_empty lookahead_sequence_empty)

theorem lookahead_always_empty_witness:
  "plain_lookahead (RuleNode (NegativeLookahead (RuleNode (Literal ''a'') None)) None) \<and>
   lookahead_sequence (RuleNode (Sequence
      [RuleNode (NegativeLookahead (RuleNode (Literal ''a'') None)) None]) None) \<and>
   is_lookahead_rule (RuleNode (NegativeLookahead (RuleNode (Literal ''a'') None)) None) \<and>
   ''r'' \<in> set (implicitly_empty_rules
      \<lparr>start_rule = Some ''r'',
       rules = [(''r'', RuleNode (Sequence
                  [RuleNode (NegativeLookahead (RuleNode (Literal ''a'') None)) None]) None),
                (''q'', RuleNode (NegativeLookahead (RuleNode (Literal ''a'') None)) None)],
       lexer = None\<rparr>) \<and>
   ''q'' \<notin> set (implicitly_empty_rules
      \<lparr>start_rule = Some ''r'',
       rules = [(''r'', RuleNode (Sequence
                  [RuleNode (NegativeLookahead (RuleNode (Literal ''a'') None)) None]) None),
                (''q'', RuleNode (NegativeLookahead (RuleNode (Literal ''a'') None)) None)],
       lexer = None\<rparr>)"
proof -
  let ?la = "RuleNode (NegativeLookahead (RuleNode (Literal ''a'') None)) None"
  let ?sq = "RuleNode (Sequence [?la]) None"
  let ?g = "\<lparr>start_rule = Some ''r'', rules = [(''r'', ?sq), (''q'', ?la)], lexer = None\<rparr>"
  have p: "plain_lookahead ?la"
    by (simp add: plain_lookahead_def is_lookahead_rule_def ast_or_empty_def has_key_def
        ast_flag_def dict_get_def)
  have s: "lookahead_sequence ?sq"
    using p by (simp add: lookahead_sequence_def names_child_def ast_or_empty_def has_key_def
        ast_flag_def dict_get_def)
  have l: "is_lookahead_rule ?la" by (simp add: is_lookahead_rule_def)
  have d: "distinct (map fst (rules ?g))" by simp
  from lookahead_always_empty[of ?la ?g Map.empty ?sq "''r''"] s d
  have r: "''r'' \<in> set (implicitly_empty_rules ?g)" by simp
  from lookahead_always_empty[of ?la ?g Map.empty ?la "''q''"] l d
  have q: "''q'' \<notin> set (implicitly_empty_rules ?g)" by simp
  from p s l r q show ?thesis by simp
qed

section \<open>Theorems: lexer\<close>



























section \<open>Theorems: AST builder\<close>

lemma left_fold_groups:
  assumes "\<forall>(op, right) \<in> set pairs. right \<noteq> PNone \<and> has_key op ''line'' \<and> has_key op ''col''"
  shows "left_fold left (map (\<lambda>(op, right). PList [PDict op, right]) pairs) = Inr (left_nested left pairs)"
  using assms
proof (induction pairs arbitrary: left)
  case Nil
  then show ?case by simp
next
  case (Cons p pairs)
  obtain op right where p: "p = (op, right)" by (cases p)
  with Cons.prems have r: "right \<noteq> PNone" and l: "has_key op ''line''" and c: "has_key op ''col''"
    by auto
  from l obtain lv where lv: "dict_get op ''line'' = Some lv"
    by (cases "dict_get op ''line''") (auto simp: has_key_def dict_get_def map_of_eq_None_iff)
  from c obtain cv where cv: "dict_get op ''col'' = Some cv"
    by (cases "dict_get op ''col''") (auto simp: has_key_def dict_get_def map_of_eq_None_iff)
  have "op_and_right left [PDict op, right] = Inr (binary_op_node op left right)"
    by (simp add: op_and_right_def py_index_def binary_op_def py_item_def lv cv binary_op_node_def)
  then have "left_fold left (map (\<lambda>(op, right). PList [PDict op, right]) (p # pairs))
        = left_fold (binary_op_node op left right) (map (\<lambda>(op, right). PList [PDict op, right]) pairs)"
    using r by (simp add: p py_iter_def not_none_def)
  also have "\<dots> = Inr (left_nested (binary_op_node op left right) pairs)"
    using Cons.prems by (intro Cons.IH) auto
  finally show ?case by (simp add: p)
qed

text \<open>
  Claim C3, as stated, fails: \<open>generic_visit\<close> tests \<open>discard\<close>, the leaf rule and
  \<open>promote\<close> before it looks at \<open>structure\<close>. The grammar of \<open>leaf_calc_visitor\<close>,
  whose rule \<open>expr\<close> carries \<open>structure: "left_associative_op"\<close> and \<open>leaf: true\<close>,
  passes the linter; for the visited children \<open>8\<close>, \<open>[[-, 2], [-, 1]]\<close> the builder
  returns the leaf node of \<open>expr\<close>, not a \<open>binary_op\<close> node.
\<close>

theorem leaf_before_structure_counterexample:
  "lint_grammar (grammar leaf_calc_visitor) [''expr''] = Inr () \<and>
   generic_visit leaf_calc_visitor 0 (PNode ''expr'' OtherExpr ''8-2-1'' 0 [])
     [PDict [(''tag'', PStr ''term''), (''text'', PStr ''8''), (''line'', PInt 1), (''col'', PInt 1)],
      PList [PList [PDict [(''tag'', PStr ''add_op''), (''text'', PStr ''-''),
                           (''line'', PInt 1), (''col'', PInt 2)],
                    PDict [(''tag'', PStr ''term''), (''text'', PStr ''2''),
                           (''line'', PInt 1), (''col'', PInt 3)]],
             PList [PDict [(''tag'', PStr ''add_op''), (''text'', PStr ''-''),
                           (''line'', PInt 1), (''col'', PInt 4)],
                    PDict [(''tag'', PStr ''term''), (''text'', PStr ''1''),
                           (''line'', PInt 1), (''col'', PInt 5)]]]]
   = Inr (PDict [(''tag'', PStr ''expr''), (''text'', PStr ''8-2-1''),
                 (''line'', PInt 1), (''col'', PInt 1)], 0)"
  by code_simp

text \<open>
  Claim C3, amended. Let a rule of the grammar carry
  \<open>structure: "left_associative_op"\<close>, and let its visited children be an operand
  \<open>V1\<close> and the list of the groups \<open>[O, V]\<close>, every operator a node with \<open>line\<close> and
  \<open>col\<close>. The directives that \<open>generic_visit\<close> tests before \<open>structure\<close> come
  first: a rule that is also marked \<open>discard\<close> yields \<open>None\<close>; otherwise a leaf rule
  (\<open>leaf\<close> set, or, without a lexer, a literal or regex body, or a one-part
  sequence around a bare literal or regex) yields its leaf node; otherwise a
  rule marked \<open>promote\<close> yields what promotion makes of the children. In every
  other case \<open>generic_visit\<close> returns the left-nested fold
  \<open>((V1 O1 V2) O2 V3) ...\<close> of \<open>binary_op\<close> nodes, each with the \<open>line\<close> and \<open>col\<close> of
  its operator. The token counter stays as it was.
\<close>

theorem left_associative_fold:
  assumes "\<not> (tokens_on vis \<and> expr_name node \<in> token_rule_names vis)"
    and "map_of (rules (grammar vis)) (expr_name node) = Some rule_def"
    and "dict_get (ast_or_empty (node_ast rule_def)) ''structure'' = Some (PStr ''left_associative_op'')"
    and "v1 \<noteq> PNone"
    and "\<forall>(op, right) \<in> set pairs. right \<noteq> PNone \<and> has_key op ''line'' \<and> has_key op ''col''"
  shows "generic_visit vis token_idx node [v1, op_groups pairs] =
     (if ast_flag (ast_or_empty (node_ast rule_def)) ''discard'' then Inr (PNone, token_idx)
      else if is_leaf_rule vis rule_def
      then with_idx token_idx
             (leaf_node vis node (ast_or_empty (node_ast rule_def)) [v1, op_groups pairs])
      else if ast_flag (ast_or_empty (node_ast rule_def)) ''promote''
      then with_idx token_idx
             (promote_node vis node rule_def (ast_or_empty (node_ast rule_def))
                [v1, op_groups pairs])
      else Inr (left_nested v1 pairs, token_idx))"
proof -
  have "left_associative_op [v1, op_groups pairs] = Inr (left_nested v1 pairs)"
    using left_fold_groups[OF assms(5), of v1]
    by (simp add: left_associative_op_def py_index_def op_groups_def py_iter_def)
  moreover have "not_none [v1, op_groups pairs] = [v1, op_groups pairs]"
    using assms(4) by (simp add: not_none_def op_groups_def)
  ultimately show ?thesis
    using assms(1,2,3)
    by (auto simp: generic_visit_def is_leaf_rule_def Let_def with_idx_def)
qed

lemma dict_get_dict_set:
  "dict_get (dict_set d k v) k' = (if k' = k then Some v else dict_get d k')"
  by (induction d) (auto simp: dict_get_def)

lemma name_children_past_end:
  assumes "length children \<le> i" "dict_get named n = Some (PList [])"
    and "name_children children i parts named = Inr named1"
  shows "dict_get named1 n = Some (PList [])"
  using assms
proof (induction parts arbitrary: i named)
  case Nil
  then show ?case by simp
next
  case (Cons part parts)
  show ?case
  proof (cases "dict_get (ast_or_empty (node_ast part)) ''name''")
    case None
    with Cons.prems(3) have "name_children children (i + 1) parts named = Inr named1" by simp
    from Cons.IH[OF _ Cons.prems(2) this] Cons.prems(1) show ?thesis by simp
  next
    case (Some nm)
    with Cons.prems(3) obtain child_name where nm: "nm = PStr child_name"
      by (cases nm) auto
    from Cons.prems(1) have e: "\<not> i < length children" by simp
    from Cons.prems(3) Some nm e
    have r: "name_children children (i + 1) parts (dict_set named child_name (PList [])) = Inr named1"
      by simp
    have "dict_get (dict_set named child_name (PList [])) n = Some (PList [])"
      using Cons.prems(2) by (simp add: dict_get_dict_set)
    from Cons.IH[OF _ this r] Cons.prems(1) show ?thesis by simp
  qed
qed

lemma name_children_unmatched:
  assumes "k < length parts" "part_name (parts ! k) = Some (PStr n)" "length children \<le> i + k"
    and "name_children children i parts named = Inr named1"
  shows "dict_get named1 n = Some (PList [])"
  using assms
proof (induction parts arbitrary: i k named)
  case Nil
  then show ?case by simp
next
  case (Cons part parts)
  show ?case
  proof (cases k)
    case 0
    with Cons.prems have nm: "dict_get (ast_or_empty (node_ast part)) ''name'' = Some (PStr n)"
      and e: "\<not> i < length children"
      by (auto simp: part_name_def)
    with Cons.prems(4)
    have r: "name_children children (i + 1) parts (dict_set named n (PList [])) = Inr named1"
      by simp
    have "dict_get (dict_set named n (PList [])) n = Some (PList [])"
      by (simp add: dict_get_dict_set)
    from name_children_past_end[OF _ this r] e show ?thesis by simp
  next
    case (Suc k')
    with Cons.prems have k': "k' < length parts" "part_name (parts ! k') = Some (PStr n)"
      "length children \<le> (i + 1) + k'"
      by auto
    from Cons.prems(4) obtain named' where
      "name_children children (i + 1) parts named' = Inr named1"
      by (auto split: option.splits pyval.splits)
    from Cons.IH[OF k' this] show ?thesis .
  qed
qed

lemma name_children_returns:
  "string_names parts \<Longrightarrow> \<exists>named1. name_children children i parts named = Inr named1"
proof (induction parts arbitrary: i named)
  case Nil
  then show ?case by simp
next
  case (Cons part parts)
  then show ?case
    by (cases "dict_get (ast_or_empty (node_ast part)) ''name''")
       (auto simp: string_names_def part_name_def split: pyval.splits)
qed

text \<open>
  Claim C10. In default node creation (the rule is not discarded, no leaf rule,
  not promoted and has no operator or mapping structure), when the \<open>i\<close>-th
  non-lookahead, non-discarded part of the rule's sequence carries the name \<open>n\<close>
  and there is no \<open>i\<close>-th surviving visited child, the node returned has a
  \<open>children\<close> mapping in which \<open>n\<close> is present and bound to the empty list.
\<close>

theorem unmatched_name_bound_to_empty_list:
  assumes "plain_rule_visit vis node rule_def" "default_structure rule_def"
    and "string_names (child_producing_parts vis rule_def)"
    and "get_pos vis node (not_none visited_children) = Inr (l, c)"
    and "i < length (child_producing_parts vis rule_def)"
    and "part_name (child_producing_parts vis rule_def ! i) = Some (PStr n)"
    and "length (not_none visited_children) \<le> i"
  shows "\<exists>d named. generic_visit vis token_idx node visited_children = Inr (PDict d, token_idx) \<and>
           dict_get d ''children'' = Some (PDict named) \<and>
           dict_get named n = Some (PList [])"
proof -
  let ?children = "not_none visited_children"
  let ?parts = "child_producing_parts vis rule_def"
  let ?ast = "ast_or_empty (node_ast rule_def)"
  from name_children_returns[OF assms(3), of ?children 0 "[]"]
  obtain named where nc: "name_children ?children 0 ?parts [] = Inr named" by blast
  from name_children_unmatched[OF assms(5,6) _ nc] assms(7)
  have g: "dict_get named n = Some (PList [])" by simp
  then have ne: "named \<noteq> []" by (auto simp: dict_get_def)
  let ?d = "[(''tag'', config_tag ?ast (expr_name node)), (''text'', PStr (node_text node)),
             (''line'', l), (''col'', c), (''children'', PDict named)]"
  have dn: "default_node vis node rule_def ?ast ?children = Inr (PDict ?d)"
    using assms(4) nc ne by (simp add: default_node_def)
  have "generic_visit vis token_idx node visited_children = Inr (PDict ?d, token_idx)"
    using assms(1,2) dn
    by (auto simp: generic_visit_def plain_rule_visit_def default_structure_def Let_def with_idx_def
        split: option.splits pyval.splits)
  moreover have "dict_get ?d ''children'' = Some (PDict named)" by (simp add: dict_get_def)
  ultimately show ?thesis using g by blast
qed


theorem left_associative_fold_witness:
  "generic_visit calc_visitor 0 (PNode ''expr'' OtherExpr ''8-2-1'' 0 [])
     [PDict [(''tag'', PStr ''term''), (''text'', PStr ''8''), (''line'', PInt 1), (''col'', PInt 1)],
      PList [PList [PDict [(''tag'', PStr ''add_op''), (''text'', PStr ''-''),
                           (''line'', PInt 1), (''col'', PInt 2)],
                    PDict [(''tag'', PStr ''term''), (''text'', PStr ''2''),
                           (''line'', PInt 1), (''col'', PInt 3)]],
             PList [PDict [(''tag'', PStr ''add_op''), (''text'', PStr ''-''),
                           (''line'', PInt 1), (''col'', PInt 4)],
                    PDict [(''tag'', PStr ''term''), (''text'', PStr ''1''),
                           (''line'', PInt 1), (''col'', PInt 5)]]]]
   = Inr (PDict
       [(''tag'', PStr ''binary_op''),
        (''op'', PDict [(''tag'', PStr ''add_op''), (''text'', PStr ''-''),
                        (''line'', PInt 1), (''col'', PInt 4)]),
        (''left'', PDict
           [(''tag'', PStr ''binary_op''),
            (''op'', PDict [(''tag'', PStr ''add_op''), (''text'', PStr ''-''),
                            (''line'', PInt 1), (''col'', PInt 2)]),
            (''left'', PDict [(''tag'', PStr ''term''), (''text'', PStr ''8''),
                              (''line'', PInt 1), (''col'', PInt 1)]),
            (''right'', PDict [(''tag'', PStr ''term''), (''text'', PStr ''2''),
                               (''line'', PInt 1), (''col'', PInt 3)]),
            (''line'', PInt 1), (''col'', PInt 2)]),
        (''right'', PDict [(''tag'', PStr ''term''), (''text'', PStr ''1''),
                           (''line'', PInt 1), (''col'', PInt 5)]),
        (''line'', PInt 1), (''col'', PInt 4)], 0)"
proof -
  let ?node = "PNode ''expr'' OtherExpr ''8-2-1'' 0 []"
  let ?rule = "RuleNode (Sequence [RuleNode (Rule ''term'') None,
                                 RuleNode (ZeroOrMore (RuleNode (Sequence
                                   [RuleNode (Rule ''add_op'') None, RuleNode (Rule ''term'') None])
                                   None)) None])
                      (Some [(''structure'', PStr ''left_associative_op'')])"
  let ?v1 = "PDict [(''tag'', PStr ''term''), (''text'', PStr ''8''), (''line'', PInt 1), (''col'', PInt 1)]"
  let ?pairs = "[([(''tag'', PStr ''add_op''), (''text'', PStr ''-''),
                           (''line'', PInt 1), (''col'', PInt 2)],
                    PDict [(''tag'', PStr ''term''), (''text'', PStr ''2''),
                           (''line'', PInt 1), (''col'', PInt 3)]),
                 ([(''tag'', PStr ''add_op''), (''text'', PStr ''-''),
                           (''line'', PInt 1), (''col'', PInt 4)],
                    PDict [(''tag'', PStr ''term''), (''text'', PStr ''1''),
                           (''line'', PInt 1), (''col'', PInt 5)])]"
  have h0: "\<not> (tokens_on calc_visitor \<and> expr_name ?node \<in> token_rule_names calc_visitor)"
    by (simp add: tokens_on_def calc_visitor_def)
  have h1: "map_of (rules (grammar calc_visitor)) (expr_name ?node) = Some ?rule"
    by (simp add: calc_visitor_def)
  have h2: "dict_get (ast_or_empty (node_ast ?rule)) ''structure'' = Some (PStr ''left_associative_op'')"
    by code_simp
  have h3: "?v1 \<noteq> PNone" by simp
  have h4: "\<forall>(op, right) \<in> set ?pairs. right \<noteq> PNone \<and> has_key op ''line'' \<and> has_key op ''col''"
    by (simp add: has_key_def)
  have c1: "\<not> ast_flag (ast_or_empty (node_ast ?rule)) ''discard''" by code_simp
  have c2: "\<not> is_leaf_rule calc_visitor ?rule" by code_simp
  have c3: "\<not> ast_flag (ast_or_empty (node_ast ?rule)) ''promote''" by code_simp
  from left_associative_fold[OF h0 h1 h2 h3 h4, of 0] c1 c2 c3
  show ?thesis by (simp add: op_groups_def binary_op_node_def dict_get_def)
qed

theorem unmatched_name_bound_to_empty_list_witness:
  "generic_visit clone_visitor 0 (PNode ''clone'' OtherExpr ''/repo'' 0 [])
     [PDict [(''tag'', PStr ''path''), (''text'', PStr ''/repo''), (''line'', PInt 1), (''col'', PInt 1)],
      PNone]
   = Inr (PDict
       [(''tag'', PStr ''clone''), (''text'', PStr ''/repo''), (''line'', PInt 1), (''col'', PInt 1),
        (''children'', PDict
           [(''repo'', PDict [(''tag'', PStr ''path''), (''text'', PStr ''/repo''),
                              (''line'', PInt 1), (''col'', PInt 1)]),
            (''dest'', PList [])])], 0)"
proof -
  let ?node = "PNode ''clone'' OtherExpr ''/repo'' 0 []"
  let ?rule = "RuleNode (Sequence [RuleNode (Rule ''path'') (Some [(''name'', PStr ''repo'')]),
                                 RuleNode (Optional (RuleNode (Rule ''target'') None))
                                          (Some [(''name'', PStr ''dest'')])])
                      None"
  let ?vc = "[PDict [(''tag'', PStr ''path''), (''text'', PStr ''/repo''), (''line'', PInt 1), (''col'', PInt 1)],
      PNone]"
  have h1: "plain_rule_visit clone_visitor ?node ?rule" by code_simp
  have h2: "default_structure ?rule" by code_simp
  have h3: "string_names (child_producing_parts clone_visitor ?rule)" by code_simp
  have h4: "get_pos clone_visitor ?node (not_none ?vc) = Inr (PInt 1, PInt 1)" by code_simp
  have h5: "1 < length (child_producing_parts clone_visitor ?rule)" by code_simp
  have h6: "part_name (child_producing_parts clone_visitor ?rule ! 1) = Some (PStr ''dest'')"
    by code_simp
  have h7: "length (not_none ?vc) \<le> 1" by code_simp
  have e: "generic_visit clone_visitor 0 ?node ?vc = Inr (PDict
       [(''tag'', PStr ''clone''), (''text'', PStr ''/repo''), (''line'', PInt 1), (''col'', PInt 1),
        (''children'', PDict
           [(''repo'', PDict [(''tag'', PStr ''path''), (''text'', PStr ''/repo''),
                              (''line'', PInt 1), (''col'', PInt 1)]),
            (''dest'', PList [])])], 0)"
    by code_simp
  from unmatched_name_bound_to_empty_list[OF h1 h2 h3 h4 h5 h6 h7, of 0] e
  show ?thesis by simp
qed

section \<open>Theorems: parsing\<close>





lemma find_pos_returns: "\<exists>l c. find_pos src offset = Inr (l, c)"
proof -
  let ?ls = "line_starts src"
  let ?off = "clamp_offset src offset"
  have off0: "0 \<le> ?off" by (simp add: clamp_offset_eq)
  from bisect_right_spec[OF line_starts_sorted, of src ?off]
  have sp: "bisect_right ?ls ?off \<le> length ?ls"
    "\<forall>j. bisect_right ?ls ?off \<le> j \<and> j < length ?ls \<longrightarrow> ?off < int (?ls ! j)"
    by auto
  have "bisect_right ?ls ?off \<noteq> 0"
  proof
    assume "bisect_right ?ls ?off = 0"
    with sp(2) line_starts_nth0[of src] off0 show False by auto
  qed
  then have "\<exists>v. py_index ?ls (int (bisect_right ?ls ?off) - 1) = Inr v"
    using sp(1) by (auto simp: py_index_def)
  then show ?thesis by (auto simp: find_pos_def Let_def)
qed

lemma caught_handled:
  assumes "caught e"
  shows "\<exists>msg. handle_exception config text toks e = Inr (Error msg)"
proof -
  have p: "\<exists>m. position_prefix text p = Inr m" for p
    using find_pos_returns[of "text" "int p"] by (auto simp: position_prefix_def)
  have i: "\<exists>m. incomplete_message text p = Inr m" for p
    using p[of p] by (auto simp: incomplete_message_def)
  have m: "\<exists>m. mismatch_message text p exprs = Inr m" for p exprs
    using p[of p] by (auto simp: mismatch_message_def Let_def)
  show ?thesis
  proof (cases e)
    case (ParseError p msg exprs)
    with m[of p exprs] show ?thesis
      by (auto simp: handle_exception_def split: option.splits)
  next
    case (IncompleteParseError p msg)
    with i[of p] show ?thesis
      by (auto simp: handle_exception_def split: option.splits)
  qed (use assms in \<open>auto simp: handle_exception_def caught_def\<close>)
qed

lemma uncaught_propagates:
  assumes "\<not> caught e"
  shows "handle_exception config text toks e = Inl e"
  using assms by (cases e) (auto simp: handle_exception_def caught_def)





text \<open>
  Claim C2, as stated, fails: \<open>number\<close> is a leaf rule of type \<open>number\<close> over the
  regex \<open>[0-9.]+\<close>; on the input \<open>1.2.3\<close> the match succeeds, \<open>float\<close> raises
  \<open>ValueError\<close> in the AST builder, the matcher wraps it in a \<open>VisitationError\<close>,
  and \<open>parse\<close> raises it instead of returning a dictionary.
\<close>

theorem parse_raises_counterexample:
  "parse_internal number_config digits_to_number ''1.2.3'' None =
     Some (Inl (VisitationError (ValueError ''could not convert string to float'')))"
  by code_simp

text \<open>
  Claim C2, amended. For every input text given to a compiled parser: when the
  \<open>try\<close> block completes, \<open>parse\<close> returns \<open>{status: "success", ast}\<close>; when it
  raises a lexical error, an indentation error, a parse error or an
  incomplete-parse error, \<open>parse\<close> returns \<open>{status: "error", message}\<close>; an
  exception of any other kind leaves \<open>parse\<close> as it was raised; and \<open>parse\<close>
  does not return when the lexer does not end.
\<close>

theorem parse_result_cases:
  "(try_body config to_num text (case rule of None \<Rightarrow> config_start_rule config | Some r \<Rightarrow> r)
      = Some (toks, Inr ast) \<longrightarrow>
      parse_internal config to_num text rule = Some (Inr (Success ast))) \<and>
   (try_body config to_num text (case rule of None \<Rightarrow> config_start_rule config | Some r \<Rightarrow> r)
      = Some (toks, Inl e) \<and> caught e \<longrightarrow>
      (\<exists>msg. parse_internal config to_num text rule = Some (Inr (Error msg)))) \<and>
   (try_body config to_num text (case rule of None \<Rightarrow> config_start_rule config | Some r \<Rightarrow> r)
      = Some (toks, Inl e) \<and> \<not> caught e \<longrightarrow>
      parse_internal config to_num text rule = Some (Inl e)) \<and>
   (try_body config to_num text (case rule of None \<Rightarrow> config_start_rule config | Some r \<Rightarrow> r)
      = None \<longrightarrow>
      parse_internal config to_num text rule = None)"
  using caught_handled[of e config "text" toks] uncaught_propagates[of e config "text" toks]
  by (auto simp: parse_internal_def Let_def)

theorem parse_result_cases_witness:
  "try_body sequence_config (\<lambda>s. None) ''ab'' ''start''
     = Some (None, Inr (PDict
         [(''tag'', PStr ''start''), (''text'', PStr ''ab''), (''line'', PInt 1), (''col'', PInt 1),
          (''children'', PList [PDict [(''tag'', PStr ''b''), (''text'', PStr ''b''),
                                       (''line'', PInt 1), (''col'', PInt 2)]])])) \<and>
   parse_internal sequence_config (\<lambda>s. None) ''ab'' None
     = Some (Inr (Success (PDict
         [(''tag'', PStr ''start''), (''text'', PStr ''ab''), (''line'', PInt 1), (''col'', PInt 1),
          (''children'', PList [PDict [(''tag'', PStr ''b''), (''text'', PStr ''b''),
                                       (''line'', PInt 1), (''col'', PInt 2)]])]))) \<and>
   try_body number_config digits_to_number ''x'' ''number'' = Some (None, Inl (ParseError 0 [] None)) \<and>
   caught (ParseError 0 [] None) \<and>
   (\<exists>msg. parse_internal number_config digits_to_number ''x'' None = Some (Inr (Error msg))) \<and>
   try_body number_config digits_to_number ''1.2.3'' ''number''
     = Some (None, Inl (VisitationError (ValueError ''could not convert string to float''))) \<and>
   \<not> caught (VisitationError (ValueError ''could not convert string to float'')) \<and>
   parse_internal number_config digits_to_number ''1.2.3'' None
     = Some (Inl (VisitationError (ValueError ''could not convert string to float'')))"
proof -
  let ?ok = "PDict
         [(''tag'', PStr ''start''), (''text'', PStr ''ab''), (''line'', PInt 1), (''col'', PInt 1),
          (''children'', PList [PDict [(''tag'', PStr ''b''), (''text'', PStr ''b''),
                                       (''line'', PInt 1), (''col'', PInt 2)]])]"
  let ?ve = "VisitationError (ValueError ''could not convert string to float'')"
  have r: "config_start_rule number_config = ''number''"
    "config_start_rule sequence_config = ''start''"
    by (simp_all add: number_config_def sequence_config_def)
  have t1: "try_body sequence_config (\<lambda>s. None) ''ab'' ''start'' = Some (None, Inr ?ok)"
    by code_simp
  have t2: "try_body number_config digits_to_number ''x'' ''number''
              = Some (None, Inl (ParseError 0 [] None))"
    by code_simp
  have t3: "try_body number_config digits_to_number ''1.2.3'' ''number'' = Some (None, Inl ?ve)"
    by code_simp
  have c2: "caught (ParseError 0 [] None)" and c3: "\<not> caught ?ve"
    by (simp_all add: caught_def)
  from parse_result_cases[of sequence_config "\<lambda>s. None" "''ab''" None None ?ok]
  have p1: "parse_internal sequence_config (\<lambda>s. None) ''ab'' None = Some (Inr (Success ?ok))"
    using t1 by (simp add: r)
  from parse_result_cases[of number_config digits_to_number "''x''" None None _ "ParseError 0 [] None"]
  have p2: "\<exists>msg. parse_internal number_config digits_to_number ''x'' None = Some (Inr (Error msg))"
    using t2 c2 by (simp add: r)
  from parse_result_cases[of number_config digits_to_number "''1.2.3''" None None _ ?ve]
  have p3: "parse_internal number_config digits_to_number ''1.2.3'' None = Some (Inl ?ve)"
    using t3 c3 by (simp add: r)
  from t1 t2 t3 c2 c3 p1 p2 p3 show ?thesis by simp
qed

section \<open>Theorems: grammar construction\<close>

lemma normalized_empty_choice_rejected:
  assumes "compile_grammar_from_dict re_compile peg_grammar grammar_dict external_refs lint = Some r"
    and "normalize_grammar grammar_dict = Some g"
    and "grammar_has_empty_choice g"
  shows "\<exists>e. r = Inl e"
proof -
  from transpile_grammar_rejects_empty_choice[OF assms(3)]
  obtain msg where "transpile_grammar g = Inl (ValueError msg)" by blast
  with assms(1,2) show ?thesis
    by (auto simp: compile_grammar_from_dict_def split: sum.splits if_splits)
qed

lemma shadowed_choice_normalized:
  "normalize_grammar shadowed_choice_grammar =
     Some \<lparr>start_rule = Some ''a'',
           rules = [(''a'', RuleNode (Sequence [RuleNode (Rule ''a__1'') None]) None),
                    (''a__1'', RuleNode (Sequence [RuleNode (Regex ''x'') None])
                                 (Some [(''leaf'', PBool True)]))],
           lexer = None\<rparr>"
  by code_simp

lemma shadowed_choice_lint:
  "lint_grammar
     \<lparr>start_rule = Some ''a'',
      rules = [(''a'', RuleNode (Sequence [RuleNode (Rule ''a__1'') None]) None),
               (''a__1'', RuleNode (Sequence [RuleNode (Regex ''x'') None])
                            (Some [(''leaf'', PBool True)]))],
      lexer = None\<rparr> [''a''] = Inr ()"
  by code_simp

lemma shadowed_choice_transpiled:
  \<open>transpile_grammar
     \<lparr>start_rule = Some ''a'',
      rules = [(''a'', RuleNode (Sequence [RuleNode (Rule ''a__1'') None]) None),
               (''a__1'', RuleNode (Sequence [RuleNode (Regex ''x'') None])
                            (Some [(''leaf'', PBool True)]))],
      lexer = None\<rparr>
     = Inr (''a = (a__1 ("")?)'' @ [newline] @ ''a__1 = (~r"x" ("")?)'')\<close>
  by code_simp

text \<open>
  Claim C8 does not hold of the code. In \<open>shadowed_choice_grammar\<close> the rule
  \<open>a__1\<close> is \<open>{choice: []}\<close>, and rule \<open>a\<close> has an inline definition with an \<open>ast\<close>
  block. Normalization moves the inline definition into a rule it names \<open>a__1\<close>
  by the assignment \<open>rules[new_rule_name] = ...\<close>, which replaces the rule of
  that name: the empty choice is gone before the linter and the transpiler run.
  Construction, as \<open>Parser\<close> runs it (linting, the start rule as external
  reference) and as \<open>PlaceholderParser\<close> runs it (no linting), hands the PEG
  compiler a grammar text of two rules and returns the compiled grammar that
  comes back; no step before the PEG compiler raises.
\<close>

theorem empty_choice_lost_in_normalization:
  \<open>grammar_has_empty_choice shadowed_choice_grammar \<and>
   compile_grammar_from_dict re_compile peg_grammar shadowed_choice_grammar [''a''] True =
     Some (case peg_grammar (''a = (a__1 ("")?)'' @ [newline] @ ''a__1 = (~r"x" ("")?)'') of
             Inl e \<Rightarrow> Inl e
           | Inr compiled \<Rightarrow>
               Inr \<lparr>config_grammar_dict =
                      \<lparr>start_rule = Some ''a'',
                       rules = [(''a'', RuleNode (Sequence [RuleNode (Rule ''a__1'') None]) None),
                                (''a__1'', RuleNode (Sequence [RuleNode (Regex ''x'') None])
                                             (Some [(''leaf'', PBool True)]))],
                       lexer = None\<rparr>,
                    config_is_token_grammar = False,
                    config_lexer = None,
                    config_start_rule = ''a'',
                    config_matcher = compiled\<rparr>) \<and>
   compile_grammar_from_dict re_compile peg_grammar shadowed_choice_grammar [] False =
     compile_grammar_from_dict re_compile peg_grammar shadowed_choice_grammar [''a''] True\<close>
proof -
  have "grammar_has_empty_choice shadowed_choice_grammar"
    by (simp add: grammar_has_empty_choice_def shadowed_choice_grammar_def)
  then show ?thesis
    by (simp add: compile_grammar_from_dict_def shadowed_choice_normalized shadowed_choice_lint
          shadowed_choice_transpiled split: sum.splits)
qed

end
